theory Spec2Isabelle
  imports Main "HOL-Library.Word"
begin

section \<open>The 6502 assembler: instruction selection and the flat Program\<close>

subsection \<open>Outcomes of Go calls\<close>

text \<open>
  A Go call either returns or panics. A panic unwinds through every caller, so each
  function that can reach a \<^verbatim>\<open>panic\<close> has the outcome as its result type.
\<close>

datatype 'a outcome = Panics string | Returns 'a

subsection \<open>AST nodes\<close>

text \<open>
  Modelled from the spec: the declarations of the AST node types are not part of the
  sources at hand; only their uses are. The spec describes the input as a stream of
  already-parsed statement nodes. Each constructor below is a node kind that the sources
  name in a type switch or as a method receiver, with the fields the sources read
  (\<^verbatim>\<open>OpName()\<close>, \<^verbatim>\<open>Line\<close>, \<^verbatim>\<open>RegisterName\<close>, \<^verbatim>\<open>VarName\<close>,
  \<^verbatim>\<open>Value\<close>, \<^verbatim>\<open>LabelName\<close>, \<^verbatim>\<open>dataList\<close>, \<^verbatim>\<open>Offset\<close>).
  \<open>OtherNode\<close> stands for every node kind that no type switch names.
\<close>

datatype InstructionStatement =
    ImpliedInstruction string int
  | ImmediateInstruction string int
  | AbsoluteWithLabelIndexedInstruction string string int
  | DirectWithLabelIndexedInstruction string int
  | DirectIndexedInstruction string int
  | DirectWithLabelInstruction string int
  | DirectInstruction string int
  | IndirectXInstruction string int
  | IndirectYInstruction string int
  | IndirectInstruction string int

text \<open>
  The first argument is the mnemonic as written in the source text, the last one the
  line; \<open>AbsoluteWithLabelIndexedInstruction\<close> has the register name in between.
\<close>

fun OpName :: "InstructionStatement \<Rightarrow> string" where
  "OpName (ImpliedInstruction n l) = n"
| "OpName (ImmediateInstruction n l) = n"
| "OpName (AbsoluteWithLabelIndexedInstruction n r l) = n"
| "OpName (DirectWithLabelIndexedInstruction n l) = n"
| "OpName (DirectIndexedInstruction n l) = n"
| "OpName (DirectWithLabelInstruction n l) = n"
| "OpName (DirectInstruction n l) = n"
| "OpName (IndirectXInstruction n l) = n"
| "OpName (IndirectYInstruction n l) = n"
| "OpName (IndirectInstruction n l) = n"

datatype DataItem =
    IntegerDataItem int
  | StringDataItem string
  | LabelCall string

datatype Node =
    AssignStatement string int
  | InstructionNode InstructionStatement
  | DataStatement "DataItem list" int
  | DataWordStatement "DataItem list" int
  | LabeledStatement string
  | OtherNode

text \<open>
  Modelled from the spec: the traversal \<^verbatim>\<open>Ast(v Visitor)\<close> of the AST is not part of the
  sources at hand. The spec: the visitor's \<^verbatim>\<open>visit(node)\<close> is called once per node in a
  full traversal, in source order. Both visitors of the sources have an empty
  \<^verbatim>\<open>VisitEnd\<close>, so a program is the list of its nodes in visiting order, and the
  traversal threads the visitor's state through \<open>visit\<close>; a panic of \<open>visit\<close> ends it.
\<close>

fun Ast :: "Node list \<Rightarrow> (Node \<Rightarrow> 's \<Rightarrow> 's outcome) \<Rightarrow> 's \<Rightarrow> 's outcome" where
  "Ast [] visit s = Returns s"
| "Ast (n # ns) visit s =
     (case visit n s of Panics m \<Rightarrow> Panics m | Returns s' \<Rightarrow> Ast ns visit s')"

subsection \<open>Encoding tables\<close>

definition impliedOpcode :: "(string \<times> int) list" where
  "impliedOpcode =
    [(''brk'', 0x00), (''clc'', 0x18), (''cld'', 0xd8), (''cli'', 0x58), (''clv'', 0xb8),
     (''dex'', 0xca), (''dey'', 0x88), (''inx'', 0xe8), (''iny'', 0xc8), (''nop'', 0xea),
     (''pha'', 0x48), (''php'', 0x08), (''pla'', 0x68), (''plp'', 0x28), (''rti'', 0x40),
     (''rts'', 0x60), (''sec'', 0x38), (''sed'', 0xf8), (''sei'', 0x78), (''tax'', 0xaa),
     (''tay'', 0xa8), (''tsx'', 0xba), (''txa'', 0x8a), (''txs'', 0x9a), (''tya'', 0x98)]"

definition immediateOpcode :: "(string \<times> int) list" where
  "immediateOpcode =
    [(''adc'', 0x69), (''and'', 0x29), (''cmp'', 0xc9), (''cpx'', 0xe0), (''cpy'', 0xc0),
     (''eor'', 0x49), (''lda'', 0xa9), (''ldx'', 0xa2), (''ldy'', 0xa0), (''ora'', 0x09),
     (''sbc'', 0xe9)]"

definition absIndexedXOpcode :: "(string \<times> int) list" where
  "absIndexedXOpcode =
    [(''adc'', 0x7d), (''and'', 0x3d), (''asl'', 0x1e), (''cmp'', 0xdd), (''dec'', 0xde),
     (''eor'', 0x5d), (''inc'', 0xfe), (''lda'', 0xbd), (''ldy'', 0xbc), (''lsr'', 0x5e),
     (''ora'', 0x1d), (''rol'', 0x3e), (''ror'', 0x7e), (''sbc'', 0xfd), (''sta'', 0x9d)]"

definition absIndexedYOpcode :: "(string \<times> int) list" where
  "absIndexedYOpcode =
    [(''adc'', 0x79), (''and'', 0x39), (''cmp'', 0xd9), (''eor'', 0x59), (''lda'', 0xb9),
     (''ldx'', 0xbe), (''ora'', 0x19), (''sbc'', 0xf9), (''sta'', 0x99)]"

subsection \<open>Lower-casing\<close>

text \<open>
  \<^verbatim>\<open>strings.ToLower\<close> belongs to the Go library, not to the program. It maps every
  Unicode letter of a string to its lower case: beside \<^verbatim>\<open>A\<close> to \<^verbatim>\<open>Z\<close> it also
  changes letters outside ASCII (the Kelvin sign U+212A becomes \<^verbatim>\<open>k\<close>, the dotted
  capital I U+0130 becomes \<^verbatim>\<open>i\<close>). The selector therefore takes the library function
  as its parameter \<open>ToLower\<close>, and a statement that depends on what the library
  function does says so through one of two properties:
  \<^item> \<open>lowersASCII\<close>: on a string of ASCII bytes it moves \<^verbatim>\<open>A\<close> to \<^verbatim>\<open>Z\<close> (65 to
    90) to \<^verbatim>\<open>a\<close> to \<^verbatim>\<open>z\<close> and keeps every other byte, which is what
    \<open>asciiToLower\<close> computes;
  \<^item> \<open>noForeignXY\<close>: a string with a byte outside ASCII does not lower-case to
    \<^verbatim>\<open>x\<close> or to \<^verbatim>\<open>y\<close> (no letter outside ASCII has \<^verbatim>\<open>x\<close> or \<^verbatim>\<open>y\<close> as its
    lower case).
\<close>

definition asciiToLowerChar :: "char \<Rightarrow> char" where
  "asciiToLowerChar c =
     (let n = (of_char c :: nat) in if 65 \<le> n \<and> n \<le> 90 then char_of (n + 32) else c)"

definition asciiToLower :: "string \<Rightarrow> string" where
  "asciiToLower s = map asciiToLowerChar s"

definition isASCII :: "string \<Rightarrow> bool" where
  "isASCII s = list_all (\<lambda>c. (of_char c :: nat) < 128) s"

definition lowersASCII :: "(string \<Rightarrow> string) \<Rightarrow> bool" where
  "lowersASCII f = (\<forall>s. isASCII s \<longrightarrow> f s = asciiToLower s)"

definition noForeignXY :: "(string \<Rightarrow> string) \<Rightarrow> bool" where
  "noForeignXY f = (\<forall>s. \<not> isASCII s \<longrightarrow> f s \<noteq> ''x'' \<and> f s \<noteq> ''y'')"

subsection \<open>Instruction selection\<close>

record Instruction =
  StatementAst :: InstructionStatement
  OpCode :: int
  OpSize :: int

text \<open>
  The errors that \<^verbatim>\<open>compileInstruction\<close> builds with \<^verbatim>\<open>errors.New(fmt.Sprintf(...))\<close>,
  one constructor per message, with the arguments of the format:
  \<^verbatim>\<open>Line %d: Unrecognized implied instruction: %s\<close>,
  \<^verbatim>\<open>Line %d: Unrecognized immediate instruction: %s\<close>,
  \<^verbatim>\<open>Line %d: Unrecognized absolute, X instruction: %s\<close>,
  \<^verbatim>\<open>Line %d: Unrecognized absolute, Y instruction: %s\<close>,
  \<^verbatim>\<open>Line %d: Register argument must be X or Y\<close>.
\<close>

datatype error =
    UnrecognizedImplied int string
  | UnrecognizedImmediate int string
  | UnrecognizedAbsoluteX int string
  | UnrecognizedAbsoluteY int string
  | RegisterMustBeXOrY int

text \<open>
  The Go function returns the pair \<^verbatim>\<open>(*Instruction, error)\<close>; \<open>None\<close> is \<^verbatim>\<open>nil\<close>.
  Its first argument here is the library function \<^verbatim>\<open>strings.ToLower\<close>.
\<close>

definition compileInstruction ::
  "(string \<Rightarrow> string) \<Rightarrow> InstructionStatement
     \<Rightarrow> (Instruction option \<times> error option) outcome" where
  "compileInstruction ToLower s =
    (let opName = OpName s; lowerOpName = ToLower opName in
     case s of
       ImpliedInstruction _ line \<Rightarrow>
         (case map_of impliedOpcode lowerOpName of
            None \<Rightarrow> Returns (None, Some (UnrecognizedImplied line opName))
          | Some opcode \<Rightarrow>
              Returns (Some \<lparr>StatementAst = s, OpCode = opcode, OpSize = 1\<rparr>, None))
     | ImmediateInstruction _ line \<Rightarrow>
         (case map_of immediateOpcode lowerOpName of
            None \<Rightarrow> Returns (None, Some (UnrecognizedImmediate line opName))
          | Some opcode \<Rightarrow>
              Returns (Some \<lparr>StatementAst = s, OpCode = opcode, OpSize = 2\<rparr>, None))
     | AbsoluteWithLabelIndexedInstruction _ registerName line \<Rightarrow>
         (let lowerRegName = ToLower registerName in
          if lowerRegName = ''x'' then
            (case map_of absIndexedXOpcode lowerOpName of
               None \<Rightarrow> Returns (None, Some (UnrecognizedAbsoluteX line opName))
             | Some opcode \<Rightarrow>
                 Returns (Some \<lparr>StatementAst = s, OpCode = opcode, OpSize = 3\<rparr>, None))
          else if lowerRegName = ''y'' then
            (case map_of absIndexedYOpcode lowerOpName of
               None \<Rightarrow> Returns (None, Some (UnrecognizedAbsoluteY line opName))
             | Some opcode \<Rightarrow>
                 Returns (Some \<lparr>StatementAst = s, OpCode = opcode, OpSize = 3\<rparr>, None))
          else Returns (None, Some (RegisterMustBeXOrY line)))
     | _ \<Rightarrow> Panics ''Unrecognized instruction type'')"

subsection \<open>The flat Program and its visitor\<close>

record Program =
  Variables :: "string \<rightharpoonup> int"
  Labels :: "string \<rightharpoonup> int"
  Instructions :: "Instruction list"
  Errors :: "error list"

definition Program_Visit ::
  "(string \<Rightarrow> string) \<Rightarrow> Node \<Rightarrow> Program \<Rightarrow> Program outcome" where
  "Program_Visit ToLower n p =
    (case n of
       AssignStatement varName val \<Rightarrow> Returns (p\<lparr>Variables := (Variables p)(varName \<mapsto> val)\<rparr>)
     | InstructionNode ss \<Rightarrow>
         (case compileInstruction ToLower ss of
            Panics m \<Rightarrow> Panics m
          | Returns (i, err) \<Rightarrow>
              (case err of
                 Some e \<Rightarrow> Returns (p\<lparr>Errors := Errors p @ [e]\<rparr>)
               | None \<Rightarrow>
                   (case i of
                      Some ins \<Rightarrow> Returns (p\<lparr>Instructions := Instructions p @ [ins]\<rparr>)
                    | None \<Rightarrow> Returns p)))
     | _ \<Rightarrow> Returns p)"

definition NewProgram :: Program where
  "NewProgram = \<lparr>Variables = Map.empty, Labels = Map.empty, Instructions = [], Errors = []\<rparr>"

text \<open>
  The visitor and \<^verbatim>\<open>ToProgram\<close> pass the library function on to the selector.
  \<^verbatim>\<open>ToProgram\<close> returns the pair \<^verbatim>\<open>(*Program, error)\<close>.
\<close>

definition ToProgram ::
  "(string \<Rightarrow> string) \<Rightarrow> Node list \<Rightarrow> (Program \<times> error option) outcome" where
  "ToProgram ToLower ast =
    (case Ast ast (Program_Visit ToLower) NewProgram of
       Panics m \<Rightarrow> Panics m
     | Returns p \<Rightarrow> Returns (p, None))"


section \<open>Lowering to an IR module\<close>

subsection \<open>The module under construction\<close>

text \<open>
  The LLVM module behind the handles \<^verbatim>\<open>c.mod\<close>, \<^verbatim>\<open>c.mainFn\<close> and \<^verbatim>\<open>c.builder\<close>,
  as far as \<^verbatim>\<open>Compile\<close> builds it: the globals in the order of the \<^verbatim>\<open>AddGlobal\<close>
  calls, the names of the functions in the order of the \<^verbatim>\<open>AddFunction\<close> calls, and the
  basic blocks of \<^verbatim>\<open>main\<close> in the order of the \<^verbatim>\<open>AddBasicBlock\<close> calls. A handle
  to a block or to a global is its position in that order. Names are the ones the
  code asks for.
\<close>

datatype Linkage = ExternalLinkage | PrivateLinkage

record Global =
  globalName :: string
  globalLinkage :: Linkage
  globalInitializer :: "8 word list"

datatype IRType = Int8Type | Int1Type

datatype IRInstr = Alloca IRType string | Br nat | Unreachable

record BasicBlock =
  blockName :: string
  blockInstrs :: "IRInstr list"

text \<open>
  The strings appended to \<^verbatim>\<open>c.Warnings\<close> and \<^verbatim>\<open>c.Errors\<close>, one constructor per
  message of the source:
  \<^verbatim>\<open>trashing data at 0x%04x\<close> (with the statement's offset),
  \<^verbatim>\<open>Missing 0x%04x entry point\<close>, \<^verbatim>\<open>Entry point at 0x%04x must be a dc.w\<close>,
  \<^verbatim>\<open>Entry point at 0x%04x must be a dc.w with a label\<close> (the source passes no
  address to these three formats), \<^verbatim>\<open>K lacks Compile() implementation\<close> for an
  instruction kind \<open>K\<close>, and \<^verbatim>\<open>missing nmi entry point\<close>,
  \<^verbatim>\<open>missing reset entry point\<close>, \<^verbatim>\<open>missing irq entry point\<close>.
\<close>

datatype warning = TrashingData int

datatype compileError =
    MissingEntryPointAt
  | EntryPointMustBeDcw
  | EntryPointMustBeDcwWithLabel
  | LacksCompile string
  | MissingNmiEntryPoint
  | MissingResetEntryPoint
  | MissingIrqEntryPoint

definition dataStmtMode :: nat where
  "dataStmtMode = 0"

definition compileMode :: nat where
  "compileMode = 1"

text \<open>
  The fields of the Go struct, \<^verbatim>\<open>Errors\<close> renamed to \<open>cErrors\<close> (the flat Program has
  a field of that name), \<^verbatim>\<open>mod\<close> and \<^verbatim>\<open>mainFn\<close> as the three lists above, and
  \<^verbatim>\<open>builder\<close> as the block at whose end it inserts. \<^verbatim>\<open>currentValue\<close> holds the
  bytes of the buffer. A \<^verbatim>\<open>nil\<close> block pointer is \<open>None\<close>.
\<close>

record Compilation =
  Warnings :: "warning list"
  cErrors :: "compileError list"
  modGlobals :: "Global list"
  modFunctions :: "string list"
  mainBlocks :: "BasicBlock list"
  builder :: "nat option"
  labeledData :: "string \<rightharpoonup> nat"
  currentValue :: "8 word list"
  currentLabel :: string
  mode :: nat
  basicBlocks :: "string \<rightharpoonup> nat"
  currentBlock :: "nat option"
  nmiLabelName :: string
  resetLabelName :: string
  irqLabelName :: string
  nmiBlock :: "nat option"
  resetBlock :: "nat option"
  irqBlock :: "nat option"

definition SetInsertPointAtEnd :: "nat \<Rightarrow> Compilation \<Rightarrow> Compilation" where
  "SetInsertPointAtEnd b c = c\<lparr>builder := Some b\<rparr>"

text \<open>
  The builder appends an instruction at the end of a block; a handle that is no block
  of the function does not occur in the code and leaves the list as it is.
\<close>

definition appendInstr :: "nat \<Rightarrow> IRInstr \<Rightarrow> BasicBlock list \<Rightarrow> BasicBlock list" where
  "appendInstr b i bs =
    (if b < length bs then bs[b := (bs ! b)\<lparr>blockInstrs := blockInstrs (bs ! b) @ [i]\<rparr>]
     else bs)"

definition insertInstr :: "IRInstr \<Rightarrow> Compilation \<Rightarrow> Compilation" where
  "insertInstr i c =
    (case builder c of
       None \<Rightarrow> c
     | Some b \<Rightarrow> c\<lparr>mainBlocks := appendInstr b i (mainBlocks c)\<rparr>)"

definition CreateBr :: "nat \<Rightarrow> Compilation \<Rightarrow> Compilation" where
  "CreateBr target c = insertInstr (Br target) c"

definition CreateUnreachable :: "Compilation \<Rightarrow> Compilation" where
  "CreateUnreachable c = insertInstr Unreachable c"

definition CreateAlloca :: "IRType \<Rightarrow> string \<Rightarrow> Compilation \<Rightarrow> Compilation" where
  "CreateAlloca ty name c = insertInstr (Alloca ty name) c"

definition AddBasicBlock :: "string \<Rightarrow> Compilation \<Rightarrow> nat \<times> Compilation" where
  "AddBasicBlock name c =
    (length (mainBlocks c),
     c\<lparr>mainBlocks := mainBlocks c @ [\<lparr>blockName = name, blockInstrs = []\<rparr>]\<rparr>)"

subsection \<open>Pass 1: data statements\<close>

text \<open>
  \<^verbatim>\<open>byte(*v)\<close> keeps the low eight bits of the integer; \<^verbatim>\<open>WriteString\<close> appends the
  bytes of the string. \<^verbatim>\<open>WriteByte\<close> and \<^verbatim>\<open>WriteString\<close> of \<^verbatim>\<open>bytes.Buffer\<close>
  always return a \<^verbatim>\<open>nil\<close> error, so the two error branches of the loop are never
  taken. An item of another kind matches no case of the switch.
\<close>

fun writeItems :: "DataItem list \<Rightarrow> 8 word list \<Rightarrow> 8 word list" where
  "writeItems [] buf = buf"
| "writeItems (IntegerDataItem v # items) buf = writeItems items (buf @ [word_of_int v])"
| "writeItems (StringDataItem s # items) buf = writeItems items (buf @ map of_char s)"
| "writeItems (LabelCall l # items) buf = writeItems items buf"

definition dataAddStmt :: "DataItem list \<Rightarrow> int \<Rightarrow> Compilation \<Rightarrow> Compilation" where
  "dataAddStmt dataList offset c =
    (if length (currentLabel c) = 0
     then c\<lparr>Warnings := Warnings c @ [TrashingData offset]\<rparr>
     else c\<lparr>currentValue := writeItems dataList (currentValue c)\<rparr>)"

definition dataStop :: "Compilation \<Rightarrow> Compilation" where
  "dataStop c =
    (if length (currentLabel c) = 0 then c
     else if length (currentValue c) = 0 then c
     else c\<lparr>modGlobals := modGlobals c @
                [\<lparr>globalName = currentLabel c, globalLinkage = PrivateLinkage,
                  globalInitializer = currentValue c\<rparr>],
              labeledData := (labeledData c)(currentLabel c \<mapsto> length (modGlobals c)),
              currentLabel := []\<rparr>)"

definition dataStart :: "string \<Rightarrow> Compilation \<Rightarrow> Compilation" where
  "dataStart labelName c = c\<lparr>currentLabel := labelName, currentValue := []\<rparr>"

definition visitForDataStmts :: "Node \<Rightarrow> Compilation \<Rightarrow> Compilation" where
  "visitForDataStmts n c =
    (case n of
       DataStatement dataList offset \<Rightarrow> dataAddStmt dataList offset c
     | LabeledStatement labelName \<Rightarrow> dataStart labelName (dataStop c)
     | _ \<Rightarrow> dataStop c)"

subsection \<open>Pass 2: code generation\<close>

definition lacksCompile :: "string \<Rightarrow> Compilation \<Rightarrow> Compilation" where
  "lacksCompile kind c = c\<lparr>cErrors := cErrors c @ [LacksCompile kind]\<rparr>"

text \<open>
  The \<^verbatim>\<open>Compile\<close> methods of the instruction kinds. The sources declare none for
  \<open>AbsoluteWithLabelIndexedInstruction\<close>, which therefore is no \<^verbatim>\<open>Compiler\<close>.
\<close>

fun Instruction_Compile :: "InstructionStatement \<Rightarrow> Compilation \<Rightarrow> Compilation" where
  "Instruction_Compile (ImmediateInstruction n l) c = lacksCompile ''ImmediateInstruction'' c"
| "Instruction_Compile (ImpliedInstruction n l) c = lacksCompile ''ImpliedInstruction'' c"
| "Instruction_Compile (DirectWithLabelIndexedInstruction n l) c =
     lacksCompile ''DirectWithLabelIndexedInstruction'' c"
| "Instruction_Compile (DirectIndexedInstruction n l) c =
     lacksCompile ''DirectIndexedInstruction'' c"
| "Instruction_Compile (DirectWithLabelInstruction n l) c =
     lacksCompile ''DirectWithLabelInstruction'' c"
| "Instruction_Compile (DirectInstruction n l) c = lacksCompile ''DirectInstruction'' c"
| "Instruction_Compile (IndirectXInstruction n l) c = lacksCompile ''IndirectXInstruction'' c"
| "Instruction_Compile (IndirectYInstruction n l) c = lacksCompile ''IndirectYInstruction'' c"
| "Instruction_Compile (IndirectInstruction n l) c = lacksCompile ''IndirectInstruction'' c"
| "Instruction_Compile (AbsoluteWithLabelIndexedInstruction n r l) c = c"

definition LabeledStatement_Compile :: "string \<Rightarrow> Compilation \<Rightarrow> Compilation" where
  "LabeledStatement_Compile labelName c =
    (case labeledData c labelName of
       Some g \<Rightarrow> c
     | None \<Rightarrow>
        (let (bb, c1) = AddBasicBlock labelName c;
             c2 = (case currentBlock c1 of
                     Some cb \<Rightarrow> CreateBr bb (SetInsertPointAtEnd cb c1)
                   | None \<Rightarrow> c1);
             c3 = c2\<lparr>currentBlock := Some bb\<rparr>
         in if labelName = nmiLabelName c3 then
              (CreateUnreachable (SetInsertPointAtEnd bb (c3\<lparr>nmiBlock := Some bb\<rparr>)))
                \<lparr>currentBlock := None\<rparr>
            else if labelName = resetLabelName c3 then c3\<lparr>resetBlock := Some bb\<rparr>
            else if labelName = irqLabelName c3 then
              (CreateUnreachable (SetInsertPointAtEnd bb (c3\<lparr>irqBlock := Some bb\<rparr>)))
                \<lparr>currentBlock := None\<rparr>
            else c3))"

definition visitForCompile :: "Node \<Rightarrow> Compilation \<Rightarrow> Compilation" where
  "visitForCompile n c =
    (case n of
       InstructionNode i \<Rightarrow> Instruction_Compile i c
     | LabeledStatement labelName \<Rightarrow> LabeledStatement_Compile labelName c
     | _ \<Rightarrow> c)"

definition Visit :: "Node \<Rightarrow> Compilation \<Rightarrow> Compilation outcome" where
  "Visit n c =
    (if mode c = dataStmtMode then Returns (visitForDataStmts n c)
     else if mode c = compileMode then Returns (visitForCompile n c)
     else Returns c)"

subsection \<open>Entry points\<close>

text \<open>
  \<^verbatim>\<open>setUpEntryPoint\<close> writes the label name through the pointer \<^verbatim>\<open>s\<close>; the model takes
  the assignment to the field that \<^verbatim>\<open>s\<close> points to. \<^verbatim>\<open>p.offsets\<close> is the offsets
  index of the program. \<^verbatim>\<open>stmt.dataList[0]\<close> on an empty list is Go's index panic.
\<close>

definition setUpEntryPoint ::
  "(int \<rightharpoonup> Node) \<Rightarrow> int \<Rightarrow> (string \<Rightarrow> Compilation \<Rightarrow> Compilation) \<Rightarrow> Compilation
     \<Rightarrow> Compilation outcome" where
  "setUpEntryPoint offsets addr assign c =
    (case offsets addr of
       None \<Rightarrow> Returns (c\<lparr>cErrors := cErrors c @ [MissingEntryPointAt]\<rparr>)
     | Some n \<Rightarrow>
        (case n of
           DataWordStatement dataList offset \<Rightarrow>
             (case dataList of
                [] \<Rightarrow> Panics ''index out of range''
              | item # rest \<Rightarrow>
                 (case item of
                    LabelCall labelName \<Rightarrow> Returns (assign labelName c)
                  | _ \<Rightarrow> Returns (c\<lparr>cErrors := cErrors c @ [EntryPointMustBeDcwWithLabel]\<rparr>)))
         | _ \<Rightarrow> Returns (c\<lparr>cErrors := cErrors c @ [EntryPointMustBeDcw]\<rparr>)))"

subsection \<open>The driver\<close>

definition andThen :: "'a outcome \<Rightarrow> ('a \<Rightarrow> 'b outcome) \<Rightarrow> 'b outcome" where
  "andThen r f = (case r of Panics m \<Rightarrow> Panics m | Returns x \<Rightarrow> f x)"

definition newCompilation :: Compilation where
  "newCompilation =
    \<lparr>Warnings = [], cErrors = [], modGlobals = [], modFunctions = [], mainBlocks = [],
     builder = None, labeledData = Map.empty, currentValue = [], currentLabel = [],
     mode = 0, basicBlocks = Map.empty, currentBlock = None,
     nmiLabelName = [], resetLabelName = [], irqLabelName = [],
     nmiBlock = None, resetBlock = None, irqBlock = None\<rparr>"

text \<open>The first pass: \<^verbatim>\<open>c.mode = dataStmtMode; p.Ast.Ast(c)\<close>.\<close>

definition dataPass :: "Node list \<Rightarrow> Compilation \<Rightarrow> Compilation outcome" where
  "dataPass ast c = Ast ast Visit (c\<lparr>mode := dataStmtMode\<rparr>)"

text \<open>
  The declarations of \<^verbatim>\<open>putChar\<close>, \<^verbatim>\<open>exit\<close> and \<^verbatim>\<open>main\<close>, the block
  \<^verbatim>\<open>Entry\<close> and its five slots. The result carries the handle \<^verbatim>\<open>entry\<close>.
\<close>

definition declareMain :: "Compilation \<Rightarrow> nat \<times> Compilation" where
  "declareMain c =
    (let c1 = c\<lparr>modFunctions := modFunctions c @ [''putChar'', ''exit'', ''main'']\<rparr>;
         (entry, c2) = AddBasicBlock ''Entry'' c1;
         c3 = SetInsertPointAtEnd entry c2;
         c4 = CreateAlloca Int8Type ''X'' c3;
         c5 = CreateAlloca Int8Type ''Y'' c4;
         c6 = CreateAlloca Int8Type ''A'' c5;
         c7 = CreateAlloca Int1Type ''S_neg'' c6;
         c8 = CreateAlloca Int1Type ''S_zero'' c7
     in (entry, c8))"

definition setUpEntryPoints :: "(int \<rightharpoonup> Node) \<Rightarrow> Compilation \<Rightarrow> Compilation outcome" where
  "setUpEntryPoints offsets c =
    andThen (setUpEntryPoint offsets 0xfffa (\<lambda>s c. c\<lparr>nmiLabelName := s\<rparr>) c) (\<lambda>c1.
    andThen (setUpEntryPoint offsets 0xfffc (\<lambda>s c. c\<lparr>resetLabelName := s\<rparr>) c1) (\<lambda>c2.
    setUpEntryPoint offsets 0xfffe (\<lambda>s c. c\<lparr>irqLabelName := s\<rparr>) c2))"

text \<open>The second pass: \<^verbatim>\<open>c.mode = compileMode; p.Ast.Ast(c)\<close>.\<close>

definition codegenPass :: "Node list \<Rightarrow> Compilation \<Rightarrow> Compilation outcome" where
  "codegenPass ast c = Ast ast Visit (c\<lparr>mode := compileMode\<rparr>)"

definition closeFinalBlock :: "Compilation \<Rightarrow> Compilation" where
  "closeFinalBlock c =
    (case currentBlock c of
       Some cb \<Rightarrow> CreateUnreachable (SetInsertPointAtEnd cb c)
     | None \<Rightarrow> c)"

text \<open>
  What \<^verbatim>\<open>Compile\<close> does with the module after the second pass: it returns early
  with one more error, or it reaches \<^verbatim>\<open>llvm.VerifyModule\<close>. Verification, the JIT,
  the pass manager and the bitcode file belong to LLVM and the operating system; the
  model ends where control reaches them.
\<close>

datatype phase = ReturnedEarly | ReachedVerifyModule

definition hookUpEntryPoints :: "nat \<Rightarrow> Compilation \<Rightarrow> phase \<times> Compilation" where
  "hookUpEntryPoints entry c =
    (if nmiBlock c = None then
       (ReturnedEarly, c\<lparr>cErrors := cErrors c @ [MissingNmiEntryPoint]\<rparr>)
     else if resetBlock c = None then
       (ReturnedEarly, c\<lparr>cErrors := cErrors c @ [MissingResetEntryPoint]\<rparr>)
     else if irqBlock c = None then
       (ReturnedEarly, c\<lparr>cErrors := cErrors c @ [MissingIrqEntryPoint]\<rparr>)
     else (ReachedVerifyModule, CreateBr (the (resetBlock c)) (SetInsertPointAtEnd entry c)))"

text \<open>
  The state in which the second pass starts (with the handle \<^verbatim>\<open>entry\<close>), the state
  after the second pass and the closing of the final block, and the whole of
  \<^verbatim>\<open>Compile\<close>. \<^verbatim>\<open>p.Ast\<close> and \<^verbatim>\<open>p.offsets\<close> are the two arguments.
\<close>

definition beforeCodegen :: "Node list \<Rightarrow> (int \<rightharpoonup> Node) \<Rightarrow> (nat \<times> Compilation) outcome" where
  "beforeCodegen ast offsets =
    andThen (dataPass ast newCompilation) (\<lambda>c1.
      let (entry, c2) = declareMain c1
      in andThen (setUpEntryPoints offsets c2) (\<lambda>c3. Returns (entry, c3)))"

definition lowered :: "Node list \<Rightarrow> (int \<rightharpoonup> Node) \<Rightarrow> (nat \<times> Compilation) outcome" where
  "lowered ast offsets =
    andThen (beforeCodegen ast offsets) (\<lambda>(entry, c3).
    andThen (codegenPass ast c3) (\<lambda>c4. Returns (entry, closeFinalBlock c4)))"

definition Compile :: "Node list \<Rightarrow> (int \<rightharpoonup> Node) \<Rightarrow> (phase \<times> Compilation) outcome" where
  "Compile ast offsets =
    andThen (lowered ast offsets) (\<lambda>(entry, c5). Returns (hookUpEntryPoints entry c5))"


section \<open>Notions used in the statements\<close>

text \<open>
  The instruction kinds that \<^verbatim>\<open>compileInstruction\<close> has a case for, and the nodes on
  which the flat visitor therefore returns.
\<close>

definition selectable :: "InstructionStatement \<Rightarrow> bool" where
  "selectable s =
    (case s of
       ImpliedInstruction _ _ \<Rightarrow> True
     | ImmediateInstruction _ _ \<Rightarrow> True
     | AbsoluteWithLabelIndexedInstruction _ _ _ \<Rightarrow> True
     | _ \<Rightarrow> False)"

definition visitable :: "Node \<Rightarrow> bool" where
  "visitable n = (case n of InstructionNode ss \<Rightarrow> selectable ss | _ \<Rightarrow> True)"

text \<open>What one node contributes to the flat Program: its selection error, its instruction.\<close>

definition selectionErrors :: "(string \<Rightarrow> string) \<Rightarrow> Node \<Rightarrow> error list" where
  "selectionErrors ToLower n =
    (case n of
       InstructionNode ss \<Rightarrow>
         (case compileInstruction ToLower ss of Returns (_, Some e) \<Rightarrow> [e] | _ \<Rightarrow> [])
     | _ \<Rightarrow> [])"

definition selectedInstructions ::
  "(string \<Rightarrow> string) \<Rightarrow> Node \<Rightarrow> Instruction list" where
  "selectedInstructions ToLower n =
    (case n of
       InstructionNode ss \<Rightarrow>
         (case compileInstruction ToLower ss of Returns (Some i, None) \<Rightarrow> [i] | _ \<Rightarrow> [])
     | _ \<Rightarrow> [])"

text \<open>
  The bytes of a data item as the spec words them: an integer item is a single byte, a
  string item is its raw character bytes; a label reference in a byte-data statement
  contributes nothing. A data statement is taken as the pair of its items and its
  offset.
\<close>

definition itemBytes :: "DataItem \<Rightarrow> 8 word list" where
  "itemBytes item =
    (case item of
       IntegerDataItem v \<Rightarrow> [word_of_int v]
     | StringDataItem s \<Rightarrow> map of_char s
     | LabelCall l \<Rightarrow> [])"

definition stmtBytes :: "DataItem list \<times> int \<Rightarrow> 8 word list" where
  "stmtBytes d = concat (map itemBytes (fst d))"

definition dataNode :: "DataItem list \<times> int \<Rightarrow> Node" where
  "dataNode d = DataStatement (fst d) (snd d)"

definition isDataStatement :: "Node \<Rightarrow> bool" where
  "isDataStatement n = (case n of DataStatement _ _ \<Rightarrow> True | _ \<Rightarrow> False)"

text \<open>Two data statements for the first pass.\<close>

definition sampleData :: "(DataItem list \<times> int) list" where
  "sampleData =
    [([StringDataItem ''Hi'', IntegerDataItem 266], 0x8000), ([IntegerDataItem 0], 0x8003)]"

text \<open>
  A block is terminated when its last instruction is a branch or \<^verbatim>\<open>unreachable\<close>.
  The blocks that the second pass opens are the ones after \<^verbatim>\<open>Entry\<close>, which is the
  first block of \<^verbatim>\<open>main\<close>; \<open>openBlocks\<close> lists the unterminated ones among them.
\<close>

definition isTerminator :: "IRInstr \<Rightarrow> bool" where
  "isTerminator i = (case i of Alloca _ _ \<Rightarrow> False | Br _ \<Rightarrow> True | Unreachable \<Rightarrow> True)"

definition terminated :: "BasicBlock \<Rightarrow> bool" where
  "terminated b = (blockInstrs b \<noteq> [] \<and> isTerminator (last (blockInstrs b)))"

definition openBlocks :: "Compilation \<Rightarrow> nat list" where
  "openBlocks c =
    filter (\<lambda>i. \<not> terminated (mainBlocks c ! i)) [1..<length (mainBlocks c)]"

definition labelBlockNames :: "Compilation \<Rightarrow> string list" where
  "labelBlockNames c = map blockName (tl (mainBlocks c))"

text \<open>The label names of a program, in source order.\<close>

definition labelNames :: "Node list \<Rightarrow> string list" where
  "labelNames ast = concat (map (\<lambda>n. case n of LabeledStatement l \<Rightarrow> [l] | _ \<Rightarrow> []) ast)"

text \<open>The \<^verbatim>\<open>Entry\<close> block as \<open>declareMain\<close> leaves it.\<close>

definition entryBlock :: BasicBlock where
  "entryBlock =
    \<lparr>blockName = ''Entry'',
     blockInstrs = [Alloca Int8Type ''X'', Alloca Int8Type ''Y'', Alloca Int8Type ''A'',
                    Alloca Int1Type ''S_neg'', Alloca Int1Type ''S_zero'']\<rparr>"

text \<open>
  Invariants of the second pass. The current block is one of the blocks after
  \<^verbatim>\<open>Entry\<close>, and every unterminated block after \<^verbatim>\<open>Entry\<close> is the current one. A
  vector's block, once set, is a block after \<^verbatim>\<open>Entry\<close> named as the vector's label,
  and the switch on the label name sets the reset block only for a name that differs
  from the nmi name, the irq block only for a name that differs from both.
\<close>

definition loweringInv :: "Compilation \<Rightarrow> bool" where
  "loweringInv c =
    (1 \<le> length (mainBlocks c) \<and>
     (\<forall>cb. currentBlock c = Some cb \<longrightarrow> 1 \<le> cb \<and> cb < length (mainBlocks c)) \<and>
     (\<forall>i. 1 \<le> i \<and> i < length (mainBlocks c) \<and> \<not> terminated (mainBlocks c ! i) \<longrightarrow>
        currentBlock c = Some i))"

definition vectorsInv :: "Compilation \<Rightarrow> bool" where
  "vectorsInv c =
    ((\<forall>n. nmiBlock c = Some n \<longrightarrow>
        1 \<le> n \<and> n < length (mainBlocks c) \<and> blockName (mainBlocks c ! n) = nmiLabelName c) \<and>
     (\<forall>r. resetBlock c = Some r \<longrightarrow>
        1 \<le> r \<and> r < length (mainBlocks c) \<and> blockName (mainBlocks c ! r) = resetLabelName c \<and>
        resetLabelName c \<noteq> nmiLabelName c) \<and>
     (\<forall>i. irqBlock c = Some i \<longrightarrow>
        1 \<le> i \<and> i < length (mainBlocks c) \<and> blockName (mainBlocks c ! i) = irqLabelName c \<and>
        irqLabelName c \<noteq> nmiLabelName c \<and> irqLabelName c \<noteq> resetLabelName c))"

text \<open>
  The blocks of \<^verbatim>\<open>main\<close> after \<^verbatim>\<open>LabeledStatement.Compile\<close> has opened a block
  for a label that owns no data: the new block, the branch into it from the block that
  was open, and \<^verbatim>\<open>unreachable\<close> in it when the switch takes the nmi or the irq case.
\<close>

definition blocksAfterLabel :: "string \<Rightarrow> Compilation \<Rightarrow> BasicBlock list" where
  "blocksAfterLabel l c =
    (let bb = length (mainBlocks c);
         bs1 = mainBlocks c @ [\<lparr>blockName = l, blockInstrs = []\<rparr>];
         bs2 = (case currentBlock c of Some cb \<Rightarrow> appendInstr cb (Br bb) bs1 | None \<Rightarrow> bs1)
     in if l = nmiLabelName c \<or> (l \<noteq> resetLabelName c \<and> l = irqLabelName c)
        then appendInstr bb Unreachable bs2 else bs2)"

text \<open>
  The fields that the first pass never writes, and the state in which the first pass
  ends.
\<close>

definition codeState ::
  "Compilation \<Rightarrow> BasicBlock list \<times> nat option \<times> nat option \<times> (nat option \<times> nat option \<times> nat option)
     \<times> (string \<times> string \<times> string) \<times> compileError list \<times> string list" where
  "codeState c =
    (mainBlocks c, builder c, currentBlock c, (nmiBlock c, resetBlock c, irqBlock c),
     (nmiLabelName c, resetLabelName c, irqLabelName c), cErrors c, modFunctions c)"

definition afterDataPass :: "Node list \<Rightarrow> Compilation" where
  "afterDataPass ast = fold visitForDataStmts ast (newCompilation\<lparr>mode := dataStmtMode\<rparr>)"

text \<open>
  What \<^verbatim>\<open>setUpEntryPoint\<close> finds at a vector offset: a double-byte data declaration
  whose first item is a label reference gives the label name; a missing offset, a
  statement of another kind, or a first item that is no label reference gives the
  error recorded for it; a double-byte declaration with no item at all is the index
  panic. \<open>lookupName\<close> is the vector's label name afterwards, \<open>lookupErrors\<close> the
  errors added.
\<close>

datatype lookup = LookupLabel string | LookupFails compileError | LookupPanics

definition vectorLookup :: "(int \<rightharpoonup> Node) \<Rightarrow> int \<Rightarrow> lookup" where
  "vectorLookup offsets addr =
    (case offsets addr of
       None \<Rightarrow> LookupFails MissingEntryPointAt
     | Some n \<Rightarrow>
        (case n of
           DataWordStatement dataList offset \<Rightarrow>
             (case dataList of
                [] \<Rightarrow> LookupPanics
              | item # rest \<Rightarrow>
                 (case item of
                    LabelCall labelName \<Rightarrow> LookupLabel labelName
                  | _ \<Rightarrow> LookupFails EntryPointMustBeDcwWithLabel))
         | _ \<Rightarrow> LookupFails EntryPointMustBeDcw))"

definition lookupName :: "lookup \<Rightarrow> string \<Rightarrow> string" where
  "lookupName lk old = (case lk of LookupLabel l \<Rightarrow> l | _ \<Rightarrow> old)"

definition lookupErrors :: "lookup \<Rightarrow> compileError list" where
  "lookupErrors lk = (case lk of LookupFails e \<Rightarrow> [e] | _ \<Rightarrow> [])"

definition vectorAddrs :: "int list" where
  "vectorAddrs = [0xfffa, 0xfffc, 0xfffe]"

text \<open>
  The state in which the second pass starts when none of the three lookups panics, the
  state after the second pass over the nodes \<open>ns\<close>, and the state after the whole
  second pass and the closing of the final block.
\<close>

definition codegenStart :: "Node list \<Rightarrow> (int \<rightharpoonup> Node) \<Rightarrow> Compilation" where
  "codegenStart ast offsets =
    (afterDataPass ast)
      \<lparr>modFunctions := [''putChar'', ''exit'', ''main''],
       mainBlocks := [entryBlock], builder := Some 0,
       nmiLabelName := lookupName (vectorLookup offsets 0xfffa) [],
       resetLabelName := lookupName (vectorLookup offsets 0xfffc) [],
       irqLabelName := lookupName (vectorLookup offsets 0xfffe) [],
       cErrors := lookupErrors (vectorLookup offsets 0xfffa) @
                 lookupErrors (vectorLookup offsets 0xfffc) @
                 lookupErrors (vectorLookup offsets 0xfffe)\<rparr>"

definition lookupsReturn :: "(int \<rightharpoonup> Node) \<Rightarrow> bool" where
  "lookupsReturn offsets = (\<forall>a \<in> set vectorAddrs. vectorLookup offsets a \<noteq> LookupPanics)"

definition pass2 :: "Node list \<Rightarrow> Node list \<Rightarrow> (int \<rightharpoonup> Node) \<Rightarrow> Compilation" where
  "pass2 ns ast offsets = fold visitForCompile ns ((codegenStart ast offsets)\<lparr>mode := compileMode\<rparr>)"

definition loweredState :: "Node list \<Rightarrow> (int \<rightharpoonup> Node) \<Rightarrow> Compilation" where
  "loweredState ast offsets = closeFinalBlock (pass2 ast ast offsets)"

text \<open>
  A program with a data label, the three vector labels and one more code label; its
  offsets index; an offsets index with a single-byte data declaration at the reset
  offset; and the blocks of \<^verbatim>\<open>main\<close> after the second pass over the program.
\<close>

definition sampleAst :: "Node list" where
  "sampleAst =
    [LabeledStatement ''msg'',
     DataStatement [StringDataItem ''Hi'', IntegerDataItem 0] 0x8000,
     LabeledStatement ''nmi'',
     LabeledStatement ''reset'',
     InstructionNode (ImmediateInstruction ''lda'' 5),
     LabeledStatement ''loop'',
     LabeledStatement ''irq'',
     DataWordStatement [LabelCall ''nmi''] 0xfffa,
     DataWordStatement [LabelCall ''reset''] 0xfffc,
     DataWordStatement [LabelCall ''irq''] 0xfffe]"

definition sampleOffsets :: "int \<rightharpoonup> Node" where
  "sampleOffsets =
    [0xfffa \<mapsto> DataWordStatement [LabelCall ''nmi''] 0xfffa,
     0xfffc \<mapsto> DataWordStatement [LabelCall ''reset''] 0xfffc,
     0xfffe \<mapsto> DataWordStatement [LabelCall ''irq''] 0xfffe]"

definition byteResetOffsets :: "int \<rightharpoonup> Node" where
  "byteResetOffsets =
    [0xfffa \<mapsto> DataWordStatement [LabelCall ''nmi''] 0xfffa,
     0xfffc \<mapsto> DataStatement [IntegerDataItem 0] 0xfffc,
     0xfffe \<mapsto> DataWordStatement [LabelCall ''irq''] 0xfffe]"

definition sampleBlocks :: "BasicBlock list" where
  "sampleBlocks =
    [entryBlock,
     \<lparr>blockName = ''nmi'', blockInstrs = [Unreachable]\<rparr>,
     \<lparr>blockName = ''reset'', blockInstrs = [Br 3]\<rparr>,
     \<lparr>blockName = ''loop'', blockInstrs = [Br 4]\<rparr>,
     \<lparr>blockName = ''irq'', blockInstrs = [Unreachable]\<rparr>]"

text \<open>
  Invariant of the first pass, for a set \<open>S\<close> of label names seen so far: a label in
  the label-to-global map maps to a global of the module named after it, and the label
  of the open buffer has been seen.
\<close>

definition nodeLabels :: "Node \<Rightarrow> string list" where
  "nodeLabels n = (case n of LabeledStatement l \<Rightarrow> [l] | _ \<Rightarrow> [])"

definition dataInv :: "string set \<Rightarrow> Compilation \<Rightarrow> bool" where
  "dataInv S c =
    ((\<forall>l g. labeledData c l = Some g \<longrightarrow>
        g < length (modGlobals c) \<and> globalName (modGlobals c ! g) = l \<and> l \<in> S) \<and>
     (currentLabel c = [] \<or> currentLabel c \<in> S))"

text \<open>
  An instance of the library function that, beside lower-casing ASCII, takes the
  mnemonic \<^verbatim>\<open>BR\<close> followed by the Kelvin sign (the UTF-8 bytes E2 84 AA) to
  \<^verbatim>\<open>brk\<close>, as \<^verbatim>\<open>strings.ToLower\<close> does.
\<close>

definition kelvinBRK :: string where
  "kelvinBRK = [CHR ''B'', CHR ''R'', CHR 0xE2, CHR 0x84, CHR 0xAA]"

definition lowerWithKelvin :: "string \<Rightarrow> string" where
  "lowerWithKelvin s = (if s = kelvinBRK then ''brk'' else asciiToLower s)"

text \<open>A small program for the flat pipeline, with two instructions that fail selection.\<close>

definition sampleFlat :: "Node list" where
  "sampleFlat =
    [InstructionNode (ImpliedInstruction ''foo'' 1),
     AssignStatement ''v'' 5,
     InstructionNode (ImmediateInstruction ''LDA'' 2),
     InstructionNode (AbsoluteWithLabelIndexedInstruction ''lda'' ''q'' 3),
     InstructionNode (ImpliedInstruction ''rts'' 4)]"

section \<open>Instruction selection: properties\<close>

lemmas lower_eval = asciiToLower_def asciiToLowerChar_def Let_def char_of_eq_iff take_bit_eq_mod

lemma asciiToLowerChar_eq_x:
  "asciiToLowerChar c = CHR ''x'' \<longleftrightarrow> c = CHR ''x'' \<or> c = CHR ''X''"
proof -
  have "c = CHR ''X''"
    if "65 \<le> (of_char c :: nat)" "(of_char c :: nat) \<le> 90"
       "char_of ((of_char c :: nat) + 32) = CHR ''x''"
  proof -
    from that(3) have "((of_char c :: nat) + 32) mod 256 = 120"
      by (simp add: char_of_eq_iff take_bit_eq_mod)
    with that have "(of_char c :: nat) = 88" by simp
    then have "(of_char c :: nat) = of_char (CHR ''X'')" by simp
    then show ?thesis by (simp only: of_char_eq_iff)
  qed
  then show ?thesis
    by (auto simp: asciiToLowerChar_def Let_def char_of_eq_iff take_bit_eq_mod)
qed

lemma asciiToLowerChar_eq_y:
  "asciiToLowerChar c = CHR ''y'' \<longleftrightarrow> c = CHR ''y'' \<or> c = CHR ''Y''"
proof -
  have "c = CHR ''Y''"
    if "65 \<le> (of_char c :: nat)" "(of_char c :: nat) \<le> 90"
       "char_of ((of_char c :: nat) + 32) = CHR ''y''"
  proof -
    from that(3) have "((of_char c :: nat) + 32) mod 256 = 121"
      by (simp add: char_of_eq_iff take_bit_eq_mod)
    with that have "(of_char c :: nat) = 89" by simp
    then have "(of_char c :: nat) = of_char (CHR ''Y'')" by simp
    then show ?thesis by (simp only: of_char_eq_iff)
  qed
  then show ?thesis
    by (auto simp: asciiToLowerChar_def Let_def char_of_eq_iff take_bit_eq_mod)
qed

lemma asciiToLower_eq_x: "asciiToLower r = ''x'' \<longleftrightarrow> r = ''x'' \<or> r = ''X''"
  by (cases r) (auto simp: asciiToLower_def asciiToLowerChar_eq_x)

lemma asciiToLower_eq_y: "asciiToLower r = ''y'' \<longleftrightarrow> r = ''y'' \<or> r = ''Y''"
  by (cases r) (auto simp: asciiToLower_def asciiToLowerChar_eq_y)

lemma lowersASCII_D: "lowersASCII f \<Longrightarrow> isASCII s \<Longrightarrow> f s = asciiToLower s"
  unfolding lowersASCII_def by blast

lemma noForeignXY_D: "noForeignXY f \<Longrightarrow> \<not> isASCII s \<Longrightarrow> f s \<noteq> ''x'' \<and> f s \<noteq> ''y''"
  unfolding noForeignXY_def by blast

lemma implied_keys_lower:
  "map_of impliedOpcode name = Some opc \<Longrightarrow> isASCII name \<and> asciiToLower name = name"
  by (auto simp: impliedOpcode_def isASCII_def lower_eval split: if_splits)

lemma register_letters_ascii: "isASCII ''X''" "isASCII ''x''" "isASCII ''Y''" "isASCII ''y''"
  "isASCII ''lda''"
  by (simp_all add: isASCII_def)

lemma lower_register_x:
  assumes "lowersASCII f" and "reg = ''X'' \<or> reg = ''x''"
  shows "f reg = ''x''"
  using assms(2) lowersASCII_D [OF assms(1), of reg] register_letters_ascii
  by (auto simp: asciiToLower_eq_x)

lemma lower_register_y:
  assumes "lowersASCII f" and "reg = ''Y'' \<or> reg = ''y''"
  shows "f reg = ''y''"
  using assms(2) lowersASCII_D [OF assms(1), of reg] register_letters_ascii
  by (auto simp: asciiToLower_eq_y)

lemma lower_register_iff:
  assumes "lowersASCII f" and "noForeignXY f"
  shows "f reg = ''x'' \<longleftrightarrow> reg = ''X'' \<or> reg = ''x''"
    and "f reg = ''y'' \<longleftrightarrow> reg = ''Y'' \<or> reg = ''y''"
proof -
  show "f reg = ''x'' \<longleftrightarrow> reg = ''X'' \<or> reg = ''x''"
  proof (cases "isASCII reg")
    case True
    from lowersASCII_D [OF assms(1) True] show ?thesis by (auto simp: asciiToLower_eq_x)
  next
    case False
    from noForeignXY_D [OF assms(2) False] False register_letters_ascii show ?thesis by auto
  qed
  show "f reg = ''y'' \<longleftrightarrow> reg = ''Y'' \<or> reg = ''y''"
  proof (cases "isASCII reg")
    case True
    from lowersASCII_D [OF assms(1) True] show ?thesis by (auto simp: asciiToLower_eq_y)
  next
    case False
    from noForeignXY_D [OF assms(2) False] False register_letters_ascii show ?thesis by auto
  qed
qed

lemma asciiToLower_lowersASCII: "lowersASCII asciiToLower"
  by (simp add: lowersASCII_def)

lemma asciiToLower_fixes_foreign: "\<not> isASCII s \<Longrightarrow> \<not> isASCII (asciiToLower s)"
proof (induction s)
  case Nil
  then show ?case by (simp add: isASCII_def)
next
  case (Cons c s)
  have keep: "asciiToLowerChar c = c" if "\<not> (of_char c :: nat) < 128"
    using that by (simp add: asciiToLowerChar_def Let_def)
  show ?case
  proof (cases "(of_char c :: nat) < 128")
    case True
    with Cons show ?thesis by (simp add: isASCII_def asciiToLower_def)
  next
    case False
    with keep show ?thesis by (simp add: isASCII_def asciiToLower_def)
  qed
qed

lemma asciiToLower_noForeignXY: "noForeignXY asciiToLower"
  unfolding noForeignXY_def
  using asciiToLower_fixes_foreign register_letters_ascii by metis

lemma kelvinBRK_foreign: "\<not> isASCII kelvinBRK"
  by (simp add: kelvinBRK_def isASCII_def)

lemma lowerWithKelvin_lowersASCII: "lowersASCII lowerWithKelvin"
  unfolding lowersASCII_def lowerWithKelvin_def using kelvinBRK_foreign by auto

lemma lowerWithKelvin_brk: "lowerWithKelvin kelvinBRK = ''brk''"
  by (simp add: lowerWithKelvin_def)

text \<open>
  C1. Selection follows the encoding tables, for a library lower-casing that acts on
  ASCII as \<^verbatim>\<open>strings.ToLower\<close> does. A mnemonic that the implied-mode table maps to an
  opcode is selected, as an implied instruction, with that opcode and size 1; so is
  every mnemonic whose lower-cased form the table maps to an opcode. \<open>lda\<close> immediate
  gives opcode 0xa9 and size 2; \<open>lda\<close> absolute indexed by X gives 0xbd and size 3. A
  mnemonic whose lower-cased form the consulted table lacks gives the
  unrecognized-instruction error of that mode, carrying the line and the mnemonic as
  written.
\<close>

theorem selection_follows_tables:
  assumes "lowersASCII ToLower"
  shows "(map_of impliedOpcode name = Some opc \<longrightarrow>
      compileInstruction ToLower (ImpliedInstruction name line) =
        Returns (Some \<lparr>StatementAst = ImpliedInstruction name line, OpCode = opc, OpSize = 1\<rparr>,
                 None))
   \<and> (map_of impliedOpcode (ToLower name1) = Some opc1 \<longrightarrow>
      compileInstruction ToLower (ImpliedInstruction name1 line) =
        Returns (Some \<lparr>StatementAst = ImpliedInstruction name1 line, OpCode = opc1, OpSize = 1\<rparr>,
                 None))
   \<and> compileInstruction ToLower (ImmediateInstruction ''lda'' line) =
        Returns (Some \<lparr>StatementAst = ImmediateInstruction ''lda'' line,
                       OpCode = 0xa9, OpSize = 2\<rparr>, None)
   \<and> (reg = ''X'' \<or> reg = ''x'' \<longrightarrow>
      compileInstruction ToLower (AbsoluteWithLabelIndexedInstruction ''lda'' reg line) =
        Returns (Some \<lparr>StatementAst = AbsoluteWithLabelIndexedInstruction ''lda'' reg line,
                       OpCode = 0xbd, OpSize = 3\<rparr>, None))
   \<and> (map_of impliedOpcode (ToLower name2) = None \<longrightarrow>
      compileInstruction ToLower (ImpliedInstruction name2 line) =
        Returns (None, Some (UnrecognizedImplied line name2)))
   \<and> (map_of immediateOpcode (ToLower name2) = None \<longrightarrow>
      compileInstruction ToLower (ImmediateInstruction name2 line) =
        Returns (None, Some (UnrecognizedImmediate line name2)))
   \<and> ((reg = ''X'' \<or> reg = ''x'') \<and> map_of absIndexedXOpcode (ToLower name2) = None \<longrightarrow>
      compileInstruction ToLower (AbsoluteWithLabelIndexedInstruction name2 reg line) =
        Returns (None, Some (UnrecognizedAbsoluteX line name2)))
   \<and> ((reg2 = ''Y'' \<or> reg2 = ''y'') \<and> map_of absIndexedYOpcode (ToLower name2) = None \<longrightarrow>
      compileInstruction ToLower (AbsoluteWithLabelIndexedInstruction name2 reg2 line) =
        Returns (None, Some (UnrecognizedAbsoluteY line name2)))"
proof -
  have ldaL: "ToLower ''lda'' = ''lda''"
    using lowersASCII_D [OF assms register_letters_ascii(5)] by (simp add: lower_eval)
  have a: "map_of impliedOpcode name = Some opc \<longrightarrow>
      compileInstruction ToLower (ImpliedInstruction name line) =
        Returns (Some \<lparr>StatementAst = ImpliedInstruction name line, OpCode = opc, OpSize = 1\<rparr>,
                 None)"
  proof
    assume h: "map_of impliedOpcode name = Some opc"
    from implied_keys_lower [OF h] lowersASCII_D [OF assms, of name]
    have "ToLower name = name" by simp
    with h show "compileInstruction ToLower (ImpliedInstruction name line) =
        Returns (Some \<lparr>StatementAst = ImpliedInstruction name line, OpCode = opc, OpSize = 1\<rparr>,
                 None)"
      by (simp add: compileInstruction_def Let_def)
  qed
  have b: "compileInstruction ToLower (ImmediateInstruction ''lda'' line) =
        Returns (Some \<lparr>StatementAst = ImmediateInstruction ''lda'' line,
                       OpCode = 0xa9, OpSize = 2\<rparr>, None)"
    by (simp add: compileInstruction_def Let_def ldaL immediateOpcode_def)
  have c: "reg = ''X'' \<or> reg = ''x'' \<longrightarrow>
      compileInstruction ToLower (AbsoluteWithLabelIndexedInstruction ''lda'' reg line) =
        Returns (Some \<lparr>StatementAst = AbsoluteWithLabelIndexedInstruction ''lda'' reg line,
                       OpCode = 0xbd, OpSize = 3\<rparr>, None)"
  proof
    assume "reg = ''X'' \<or> reg = ''x''"
    from lower_register_x [OF assms this]
    show "compileInstruction ToLower (AbsoluteWithLabelIndexedInstruction ''lda'' reg line) =
        Returns (Some \<lparr>StatementAst = AbsoluteWithLabelIndexedInstruction ''lda'' reg line,
                       OpCode = 0xbd, OpSize = 3\<rparr>, None)"
      by (simp add: compileInstruction_def Let_def ldaL absIndexedXOpcode_def)
  qed
  have d: "(reg = ''X'' \<or> reg = ''x'') \<and> map_of absIndexedXOpcode (ToLower name2) = None \<longrightarrow>
      compileInstruction ToLower (AbsoluteWithLabelIndexedInstruction name2 reg line) =
        Returns (None, Some (UnrecognizedAbsoluteX line name2))"
  proof
    assume h: "(reg = ''X'' \<or> reg = ''x'') \<and> map_of absIndexedXOpcode (ToLower name2) = None"
    then have "ToLower reg = ''x''" using lower_register_x [OF assms] by blast
    with h show "compileInstruction ToLower (AbsoluteWithLabelIndexedInstruction name2 reg line) =
        Returns (None, Some (UnrecognizedAbsoluteX line name2))"
      by (simp add: compileInstruction_def Let_def)
  qed
  have e: "(reg2 = ''Y'' \<or> reg2 = ''y'') \<and> map_of absIndexedYOpcode (ToLower name2) = None \<longrightarrow>
      compileInstruction ToLower (AbsoluteWithLabelIndexedInstruction name2 reg2 line) =
        Returns (None, Some (UnrecognizedAbsoluteY line name2))"
  proof
    assume h: "(reg2 = ''Y'' \<or> reg2 = ''y'') \<and> map_of absIndexedYOpcode (ToLower name2) = None"
    then have "ToLower reg2 = ''y''" using lower_register_y [OF assms] by blast
    with h show "compileInstruction ToLower (AbsoluteWithLabelIndexedInstruction name2 reg2 line) =
        Returns (None, Some (UnrecognizedAbsoluteY line name2))"
      by (simp add: compileInstruction_def Let_def)
  qed
  have f: "map_of impliedOpcode (ToLower name1) = Some opc1 \<longrightarrow>
      compileInstruction ToLower (ImpliedInstruction name1 line) =
        Returns (Some \<lparr>StatementAst = ImpliedInstruction name1 line, OpCode = opc1, OpSize = 1\<rparr>,
                 None)"
    by (simp add: compileInstruction_def Let_def)
  have g: "map_of impliedOpcode (ToLower name2) = None \<longrightarrow>
      compileInstruction ToLower (ImpliedInstruction name2 line) =
        Returns (None, Some (UnrecognizedImplied line name2))"
    by (simp add: compileInstruction_def Let_def)
  have i: "map_of immediateOpcode (ToLower name2) = None \<longrightarrow>
      compileInstruction ToLower (ImmediateInstruction name2 line) =
        Returns (None, Some (UnrecognizedImmediate line name2))"
    by (simp add: compileInstruction_def Let_def)
  show ?thesis
    using a b c d e f g i by blast
qed

theorem selection_follows_tables_witness:
  "lowersASCII asciiToLower
   \<and> map_of impliedOpcode ''nop'' = Some 0xea
   \<and> compileInstruction asciiToLower (ImpliedInstruction ''nop'' 7) =
        Returns (Some \<lparr>StatementAst = ImpliedInstruction ''nop'' 7, OpCode = 0xea, OpSize = 1\<rparr>,
                 None)
   \<and> map_of impliedOpcode (asciiToLower ''NOP'') = Some 0xea
   \<and> compileInstruction asciiToLower (ImpliedInstruction ''NOP'' 7) =
        Returns (Some \<lparr>StatementAst = ImpliedInstruction ''NOP'' 7, OpCode = 0xea, OpSize = 1\<rparr>,
                 None)
   \<and> compileInstruction asciiToLower (AbsoluteWithLabelIndexedInstruction ''lda'' ''X'' 7) =
        Returns (Some \<lparr>StatementAst = AbsoluteWithLabelIndexedInstruction ''lda'' ''X'' 7,
                       OpCode = 0xbd, OpSize = 3\<rparr>, None)
   \<and> map_of impliedOpcode (asciiToLower ''Foo'') = None
   \<and> compileInstruction asciiToLower (ImpliedInstruction ''Foo'' 7) =
        Returns (None, Some (UnrecognizedImplied 7 ''Foo''))
   \<and> map_of immediateOpcode (asciiToLower ''Foo'') = None
   \<and> compileInstruction asciiToLower (ImmediateInstruction ''Foo'' 7) =
        Returns (None, Some (UnrecognizedImmediate 7 ''Foo''))
   \<and> map_of absIndexedXOpcode (asciiToLower ''Foo'') = None
   \<and> compileInstruction asciiToLower (AbsoluteWithLabelIndexedInstruction ''Foo'' ''X'' 7) =
        Returns (None, Some (UnrecognizedAbsoluteX 7 ''Foo''))
   \<and> map_of absIndexedYOpcode (asciiToLower ''Foo'') = None
   \<and> compileInstruction asciiToLower (AbsoluteWithLabelIndexedInstruction ''Foo'' ''y'' 7) =
        Returns (None, Some (UnrecognizedAbsoluteY 7 ''Foo''))
   \<and> lowersASCII lowerWithKelvin
   \<and> map_of impliedOpcode (lowerWithKelvin kelvinBRK) = Some 0x00
   \<and> compileInstruction lowerWithKelvin (ImpliedInstruction kelvinBRK 7) =
        Returns (Some \<lparr>StatementAst = ImpliedInstruction kelvinBRK 7, OpCode = 0x00, OpSize = 1\<rparr>,
                 None)"
proof -
  have h1: "map_of impliedOpcode ''nop'' = Some 0xea"
    by (simp add: impliedOpcode_def)
  have h2: "map_of impliedOpcode (asciiToLower ''NOP'') = Some 0xea"
    by (simp add: impliedOpcode_def lower_eval)
  have h3: "map_of impliedOpcode (asciiToLower ''Foo'') = None"
    by (simp add: impliedOpcode_def lower_eval)
  have h4: "map_of immediateOpcode (asciiToLower ''Foo'') = None"
    by (simp add: immediateOpcode_def lower_eval)
  have h5: "map_of absIndexedXOpcode (asciiToLower ''Foo'') = None"
    by (simp add: absIndexedXOpcode_def lower_eval)
  have h6: "map_of absIndexedYOpcode (asciiToLower ''Foo'') = None"
    by (simp add: absIndexedYOpcode_def lower_eval)
  have h7: "map_of impliedOpcode (lowerWithKelvin kelvinBRK) = Some 0x00"
    by (simp add: lowerWithKelvin_brk impliedOpcode_def)
  show ?thesis
    using selection_follows_tables [OF asciiToLower_lowersASCII,
        of "''nop''" "0xea" 7 "''NOP''" "0xea" "''X''" "''Foo''" "''y''"]
      selection_follows_tables [OF lowerWithKelvin_lowersASCII,
        of "''nop''" "0xea" 7 kelvinBRK "0x00" "''X''" "''Foo''" "''y''"]
      h1 h2 h3 h4 h5 h6 h7 asciiToLower_lowersASCII lowerWithKelvin_lowersASCII
    by simp
qed

text \<open>
  C2. For a library lower-casing with the two properties of \<^verbatim>\<open>strings.ToLower\<close>: an
  absolute-with-label-indexed instruction whose register designator is none of
  \<open>X\<close>, \<open>x\<close>, \<open>Y\<close>, \<open>y\<close> fails with the register-must-be-X-or-Y error, whatever the
  mnemonic. With a designator \<open>X\<close> or \<open>x\<close> (\<open>Y\<close> or \<open>y\<close>) and a mnemonic whose
  lower-cased form the absolute-X (absolute-Y) table lacks, selection fails with the
  unrecognized-instruction error of that mode.
\<close>

theorem indexed_register_checked:
  assumes "lowersASCII ToLower" and "noForeignXY ToLower"
  shows "(reg \<noteq> ''X'' \<and> reg \<noteq> ''x'' \<and> reg \<noteq> ''Y'' \<and> reg \<noteq> ''y'' \<longrightarrow>
      compileInstruction ToLower (AbsoluteWithLabelIndexedInstruction name reg line) =
        Returns (None, Some (RegisterMustBeXOrY line)))
   \<and> ((regx = ''X'' \<or> regx = ''x'') \<and> map_of absIndexedXOpcode (ToLower namex) = None \<longrightarrow>
      compileInstruction ToLower (AbsoluteWithLabelIndexedInstruction namex regx line) =
        Returns (None, Some (UnrecognizedAbsoluteX line namex)))
   \<and> ((regy = ''Y'' \<or> regy = ''y'') \<and> map_of absIndexedYOpcode (ToLower namey) = None \<longrightarrow>
      compileInstruction ToLower (AbsoluteWithLabelIndexedInstruction namey regy line) =
        Returns (None, Some (UnrecognizedAbsoluteY line namey)))"
proof -
  have a: "reg \<noteq> ''X'' \<and> reg \<noteq> ''x'' \<and> reg \<noteq> ''Y'' \<and> reg \<noteq> ''y'' \<longrightarrow>
      compileInstruction ToLower (AbsoluteWithLabelIndexedInstruction name reg line) =
        Returns (None, Some (RegisterMustBeXOrY line))"
    using lower_register_iff [OF assms, of reg]
    by (simp add: compileInstruction_def Let_def)
  have b: "(regx = ''X'' \<or> regx = ''x'') \<and> map_of absIndexedXOpcode (ToLower namex) = None \<longrightarrow>
      compileInstruction ToLower (AbsoluteWithLabelIndexedInstruction namex regx line) =
        Returns (None, Some (UnrecognizedAbsoluteX line namex))"
  proof
    assume h: "(regx = ''X'' \<or> regx = ''x'') \<and> map_of absIndexedXOpcode (ToLower namex) = None"
    then have "ToLower regx = ''x''" using lower_register_x [OF assms(1)] by blast
    with h show "compileInstruction ToLower (AbsoluteWithLabelIndexedInstruction namex regx line) =
        Returns (None, Some (UnrecognizedAbsoluteX line namex))"
      by (simp add: compileInstruction_def Let_def)
  qed
  have c: "(regy = ''Y'' \<or> regy = ''y'') \<and> map_of absIndexedYOpcode (ToLower namey) = None \<longrightarrow>
      compileInstruction ToLower (AbsoluteWithLabelIndexedInstruction namey regy line) =
        Returns (None, Some (UnrecognizedAbsoluteY line namey))"
  proof
    assume h: "(regy = ''Y'' \<or> regy = ''y'') \<and> map_of absIndexedYOpcode (ToLower namey) = None"
    then have "ToLower regy = ''y''" using lower_register_y [OF assms(1)] by blast
    with h show "compileInstruction ToLower (AbsoluteWithLabelIndexedInstruction namey regy line) =
        Returns (None, Some (UnrecognizedAbsoluteY line namey))"
      by (simp add: compileInstruction_def Let_def)
  qed
  show ?thesis using a b c by blast
qed

theorem indexed_register_checked_witness:
  "lowersASCII asciiToLower \<and> noForeignXY asciiToLower
   \<and> compileInstruction asciiToLower (AbsoluteWithLabelIndexedInstruction ''lda'' ''A'' 3) =
        Returns (None, Some (RegisterMustBeXOrY 3))
   \<and> compileInstruction asciiToLower (AbsoluteWithLabelIndexedInstruction ''Foo'' ''zp'' 3) =
        Returns (None, Some (RegisterMustBeXOrY 3))
   \<and> compileInstruction asciiToLower
        (AbsoluteWithLabelIndexedInstruction ''lda'' [CHR 0xEF, CHR 0xBC, CHR 0xB8] 3) =
        Returns (None, Some (RegisterMustBeXOrY 3))
   \<and> map_of absIndexedXOpcode (asciiToLower ''LDX'') = None
   \<and> compileInstruction asciiToLower (AbsoluteWithLabelIndexedInstruction ''LDX'' ''x'' 3) =
        Returns (None, Some (UnrecognizedAbsoluteX 3 ''LDX''))
   \<and> map_of absIndexedYOpcode (asciiToLower ''ldy'') = None
   \<and> compileInstruction asciiToLower (AbsoluteWithLabelIndexedInstruction ''ldy'' ''Y'' 3) =
        Returns (None, Some (UnrecognizedAbsoluteY 3 ''ldy''))"
proof -
  have hx: "map_of absIndexedXOpcode (asciiToLower ''LDX'') = None"
    by (simp add: absIndexedXOpcode_def lower_eval)
  have hy: "map_of absIndexedYOpcode (asciiToLower ''ldy'') = None"
    by (simp add: absIndexedYOpcode_def lower_eval)
  note t = indexed_register_checked [OF asciiToLower_lowersASCII asciiToLower_noForeignXY]
  show ?thesis
    using t [of "''A''" "''lda''" 3 "''x''" "''LDX''" "''Y''" "''ldy''"]
      t [of "''zp''" "''Foo''" 3 "''x''" "''LDX''" "''Y''" "''ldy''"]
      t [of "[CHR 0xEF, CHR 0xBC, CHR 0xB8]" "''lda''" 3 "''x''" "''LDX''" "''Y''" "''ldy''"]
      hx hy asciiToLower_lowersASCII asciiToLower_noForeignXY
    by simp
qed

section \<open>The flat Program: properties\<close>

lemma compileInstruction_shape:
  "selectable s \<Longrightarrow>
    (\<exists>ins. compileInstruction ToLower s = Returns (Some ins, None)) \<or>
    (\<exists>e. compileInstruction ToLower s = Returns (None, Some e))"
  by (cases s) (auto simp: selectable_def compileInstruction_def Let_def split: option.splits)

lemma compileInstruction_panics:
  "\<not> selectable s \<Longrightarrow> compileInstruction ToLower s = Panics ''Unrecognized instruction type''"
  by (cases s) (auto simp: selectable_def compileInstruction_def Let_def)

lemma Program_Visit_step:
  "visitable n \<Longrightarrow>
     \<exists>p1. Program_Visit ToLower n p = Returns p1 \<and>
       Instructions p1 = Instructions p @ selectedInstructions ToLower n \<and>
       Errors p1 = Errors p @ selectionErrors ToLower n"
proof (cases n)
  case (InstructionNode ss)
  assume "visitable n"
  with InstructionNode have "selectable ss" by (simp add: visitable_def)
  from compileInstruction_shape [OF this, where ToLower = ToLower] InstructionNode show ?thesis
    by (auto simp: Program_Visit_def selectionErrors_def selectedInstructions_def)
qed (simp_all add: Program_Visit_def selectionErrors_def selectedInstructions_def)

lemma Ast_Program_Visit:
  "\<forall>n \<in> set ast. visitable n \<Longrightarrow>
   \<exists>p'. Ast ast (Program_Visit ToLower) p = Returns p' \<and>
        Instructions p' = Instructions p @ concat (map (selectedInstructions ToLower) ast) \<and>
        Errors p' = Errors p @ concat (map (selectionErrors ToLower) ast)"
proof (induction ast arbitrary: p)
  case Nil
  then show ?case by simp
next
  case (Cons n ns)
  then have v: "visitable n" and vs: "\<forall>n \<in> set ns. visitable n" by simp_all
  obtain p1 where p1: "Program_Visit ToLower n p = Returns p1"
      "Instructions p1 = Instructions p @ selectedInstructions ToLower n"
      "Errors p1 = Errors p @ selectionErrors ToLower n"
    using Program_Visit_step [OF v, of ToLower p] by blast
  from Cons.IH [OF vs, of p1] obtain p' where "Ast ns (Program_Visit ToLower) p1 = Returns p'"
      "Instructions p' = Instructions p1 @ concat (map (selectedInstructions ToLower) ns)"
      "Errors p' = Errors p1 @ concat (map (selectionErrors ToLower) ns)"
    by blast
  with p1 show ?case by simp
qed


text \<open>
  C9. In the flat collector, whatever the library lower-casing is, an instruction
  statement of a kind the selector covers contributes exactly one thing: the encoded instruction, appended to the instructions
  with the errors untouched, when selection succeeds, or the error, appended to the
  errors with the instructions untouched, when it fails. An error does not stop the
  traversal: over a whole program of such nodes it returns, with the instructions and
  the selection errors of all the nodes, each list in source order.
\<close>

theorem collector_visits_instructions:
  "(selectable ss \<longrightarrow>
      (\<exists>ins. compileInstruction ToLower ss = Returns (Some ins, None) \<and>
             Program_Visit ToLower (InstructionNode ss) p =
               Returns (p\<lparr>Instructions := Instructions p @ [ins]\<rparr>))
      \<or> (\<exists>e. compileInstruction ToLower ss = Returns (None, Some e) \<and>
             Program_Visit ToLower (InstructionNode ss) p = Returns (p\<lparr>Errors := Errors p @ [e]\<rparr>)))
   \<and> ((\<forall>n \<in> set ast. visitable n) \<longrightarrow>
        (\<exists>p'. Ast ast (Program_Visit ToLower) p = Returns p' \<and>
           Instructions p' = Instructions p @ concat (map (selectedInstructions ToLower) ast) \<and>
           Errors p' = Errors p @ concat (map (selectionErrors ToLower) ast)))"
proof -
  have one: "(\<exists>ins. compileInstruction ToLower ss = Returns (Some ins, None) \<and>
             Program_Visit ToLower (InstructionNode ss) p =
               Returns (p\<lparr>Instructions := Instructions p @ [ins]\<rparr>))
      \<or> (\<exists>e. compileInstruction ToLower ss = Returns (None, Some e) \<and>
             Program_Visit ToLower (InstructionNode ss) p = Returns (p\<lparr>Errors := Errors p @ [e]\<rparr>))"
    if "selectable ss"
    using compileInstruction_shape [OF that, where ToLower = ToLower] by (auto simp: Program_Visit_def)
  show ?thesis
    using one Ast_Program_Visit [of ast ToLower p] by blast
qed

lemma sample_lookups:
  "compileInstruction asciiToLower (ImpliedInstruction ''foo'' 1) = Returns (None, Some (UnrecognizedImplied 1 ''foo''))"
  "compileInstruction asciiToLower (ImmediateInstruction ''LDA'' 2) =
     Returns (Some \<lparr>StatementAst = ImmediateInstruction ''LDA'' 2, OpCode = 0xa9, OpSize = 2\<rparr>, None)"
  "compileInstruction asciiToLower (AbsoluteWithLabelIndexedInstruction ''lda'' ''q'' 3) =
     Returns (None, Some (RegisterMustBeXOrY 3))"
  "compileInstruction asciiToLower (ImpliedInstruction ''rts'' 4) =
     Returns (Some \<lparr>StatementAst = ImpliedInstruction ''rts'' 4, OpCode = 0x60, OpSize = 1\<rparr>, None)"
  by (simp_all add: compileInstruction_def lower_eval impliedOpcode_def immediateOpcode_def)

lemma sample_visitable: "list_all visitable sampleFlat"
  by (simp add: sampleFlat_def visitable_def selectable_def)

lemma sample_errors:
  "concat (map (selectionErrors asciiToLower) sampleFlat) = [UnrecognizedImplied 1 ''foo'', RegisterMustBeXOrY 3]"
  by (simp add: sampleFlat_def selectionErrors_def sample_lookups)

lemma sample_instructions:
  "map OpCode (concat (map (selectedInstructions asciiToLower) sampleFlat)) = [0xa9, 0x60]"
  by (simp add: sampleFlat_def selectedInstructions_def sample_lookups)

theorem collector_visits_instructions_witness:
  "selectable (ImpliedInstruction ''foo'' 1)
   \<and> Program_Visit asciiToLower (InstructionNode (ImpliedInstruction ''foo'' 1)) NewProgram =
       Returns (NewProgram\<lparr>Errors := [UnrecognizedImplied 1 ''foo'']\<rparr>)
   \<and> list_all visitable sampleFlat
   \<and> (\<exists>p'. Ast sampleFlat (Program_Visit asciiToLower) NewProgram = Returns p' \<and>
         map OpCode (Instructions p') = [0xa9, 0x60] \<and>
         Errors p' = [UnrecognizedImplied 1 ''foo'', RegisterMustBeXOrY 3])"
proof -
  have s: "selectable (ImpliedInstruction ''foo'' 1)"
    by (simp add: selectable_def)
  have v: "\<forall>n \<in> set sampleFlat. visitable n"
    using sample_visitable by (simp add: list_all_iff)
  show ?thesis
    using collector_visits_instructions [of "ImpliedInstruction ''foo'' 1" asciiToLower NewProgram sampleFlat]
      s v sample_visitable sample_errors sample_instructions
    by (auto simp: sample_lookups NewProgram_def)
qed

text \<open>
  C10. Whatever the library lower-casing is, \<^verbatim>\<open>ToProgram\<close> never returns a non-nil
  error value; on a program whose
  instruction statements are of the kinds the selector covers it returns, its error
  value is nil whatever selection failures there were, and those failures are the
  \<open>Errors\<close> of the returned Program, in source order.
\<close>

theorem ToProgram_error_is_nil:
  "(\<forall>p e. ToProgram ToLower ast \<noteq> Returns (p, Some e))
   \<and> ((\<forall>n \<in> set ast. visitable n) \<longrightarrow>
        (\<exists>p. ToProgram ToLower ast = Returns (p, None) \<and>
           Errors p = concat (map (selectionErrors ToLower) ast) \<and>
           Instructions p = concat (map (selectedInstructions ToLower) ast)))"
proof -
  have nil: "\<forall>p e. ToProgram ToLower ast \<noteq> Returns (p, Some e)"
    by (simp add: ToProgram_def split: outcome.splits)
  have ret: "\<exists>p. ToProgram ToLower ast = Returns (p, None) \<and>
           Errors p = concat (map (selectionErrors ToLower) ast) \<and>
           Instructions p = concat (map (selectedInstructions ToLower) ast)"
    if "\<forall>n \<in> set ast. visitable n"
    using Ast_Program_Visit [OF that, of ToLower NewProgram]
    by (auto simp: ToProgram_def NewProgram_def)
  show ?thesis using nil ret by blast
qed

theorem ToProgram_error_is_nil_witness:
  "list_all visitable sampleFlat
   \<and> (\<exists>p. ToProgram asciiToLower sampleFlat = Returns (p, None) \<and>
         Errors p = [UnrecognizedImplied 1 ''foo'', RegisterMustBeXOrY 3])"
proof -
  have v: "\<forall>n \<in> set sampleFlat. visitable n"
    using sample_visitable by (simp add: list_all_iff)
  show ?thesis
    using ToProgram_error_is_nil [of asciiToLower sampleFlat] v sample_visitable sample_errors
    by auto
qed

section \<open>The second pass: one labeled statement\<close>


lemma length_appendInstr [simp]: "length (appendInstr b i bs) = length bs"
  by (simp add: appendInstr_def)

lemma blockName_appendInstr [simp]:
  "j < length bs \<Longrightarrow> blockName (appendInstr b i bs ! j) = blockName (bs ! j)"
  by (simp add: appendInstr_def nth_list_update)

lemma names_appendInstr [simp]: "map blockName (appendInstr b i bs) = map blockName bs"
  by (rule nth_equalityI) simp_all

lemma terminated_appendInstr:
  "j < length bs \<Longrightarrow>
   terminated (appendInstr b i bs ! j) = (if j = b then isTerminator i else terminated (bs ! j))"
  by (simp add: appendInstr_def nth_list_update terminated_def)

lemma appendInstr_nth_other:
  "j \<noteq> b \<Longrightarrow> appendInstr b i bs ! j = bs ! j"
  by (simp add: appendInstr_def)

lemma mainBlocks_insertInstr:
  "mainBlocks (insertInstr i c) =
    (case builder c of None \<Rightarrow> mainBlocks c | Some b \<Rightarrow> appendInstr b i (mainBlocks c))"
  by (simp add: insertInstr_def split: option.splits)

lemma LSC_skip: "labeledData c l = Some g \<Longrightarrow> LabeledStatement_Compile l c = c"
  by (simp add: LabeledStatement_Compile_def)

lemmas LSC_defs = LabeledStatement_Compile_def AddBasicBlock_def CreateBr_def
  CreateUnreachable_def SetInsertPointAtEnd_def insertInstr_def Let_def

lemma LSC_mainBlocks:
  "labeledData c l = None \<Longrightarrow> mainBlocks (LabeledStatement_Compile l c) = blocksAfterLabel l c"
  by (auto simp add: LSC_defs blocksAfterLabel_def split: option.splits)

lemma LSC_currentBlock:
  "labeledData c l = None \<Longrightarrow> currentBlock (LabeledStatement_Compile l c) =
     (if l = nmiLabelName c \<or> (l \<noteq> resetLabelName c \<and> l = irqLabelName c) then None
      else Some (length (mainBlocks c)))"
  by (auto simp add: LSC_defs split: option.splits)

lemma LSC_nmiBlock:
  "labeledData c l = None \<Longrightarrow> nmiBlock (LabeledStatement_Compile l c) =
     (if l = nmiLabelName c then Some (length (mainBlocks c)) else nmiBlock c)"
  by (auto simp add: LSC_defs split: option.splits)

lemma LSC_resetBlock:
  "labeledData c l = None \<Longrightarrow> resetBlock (LabeledStatement_Compile l c) =
     (if l \<noteq> nmiLabelName c \<and> l = resetLabelName c then Some (length (mainBlocks c))
      else resetBlock c)"
  by (auto simp add: LSC_defs split: option.splits)

lemma LSC_irqBlock:
  "labeledData c l = None \<Longrightarrow> irqBlock (LabeledStatement_Compile l c) =
     (if l \<noteq> nmiLabelName c \<and> l \<noteq> resetLabelName c \<and> l = irqLabelName c
      then Some (length (mainBlocks c)) else irqBlock c)"
  by (auto simp add: LSC_defs split: option.splits)

lemma LSC_unchanged:
  "labeledData (LabeledStatement_Compile l c) = labeledData c"
  "nmiLabelName (LabeledStatement_Compile l c) = nmiLabelName c"
  "resetLabelName (LabeledStatement_Compile l c) = resetLabelName c"
  "irqLabelName (LabeledStatement_Compile l c) = irqLabelName c"
  "mode (LabeledStatement_Compile l c) = mode c"
  "cErrors (LabeledStatement_Compile l c) = cErrors c"
  "modGlobals (LabeledStatement_Compile l c) = modGlobals c"
  by (simp_all add: LSC_defs split: option.splits)


lemma length_blocksAfterLabel [simp]:
  "length (blocksAfterLabel l c) = Suc (length (mainBlocks c))"
  by (simp add: blocksAfterLabel_def Let_def split: option.splits)

lemma names_blocksAfterLabel [simp]:
  "map blockName (blocksAfterLabel l c) = map blockName (mainBlocks c) @ [l]"
  by (simp add: blocksAfterLabel_def Let_def split: option.splits)

lemma terminated_blocksAfterLabel:
  assumes "loweringInv c" and "j < Suc (length (mainBlocks c))"
  shows "terminated (blocksAfterLabel l c ! j) =
    (if j = length (mainBlocks c)
     then (l = nmiLabelName c \<or> (l \<noteq> resetLabelName c \<and> l = irqLabelName c))
     else (currentBlock c = Some j \<or> terminated (mainBlocks c ! j)))"
proof -
  have cb: "\<And>cb. currentBlock c = Some cb \<Longrightarrow> cb < length (mainBlocks c)"
    using assms(1) by (simp add: loweringInv_def)
  have new: "\<not> terminated \<lparr>blockName = l, blockInstrs = []\<rparr>"
    by (simp add: terminated_def)
  show ?thesis
    using assms(2) cb new
    by (auto simp: blocksAfterLabel_def Let_def terminated_appendInstr nth_append isTerminator_def
        split: option.splits)
qed


lemma nth0_blocksAfterLabel:
  assumes "loweringInv c"
  shows "blocksAfterLabel l c ! 0 = mainBlocks c ! 0"
proof -
  have cb: "\<And>cb. currentBlock c = Some cb \<Longrightarrow> cb \<noteq> 0"
    using assms by (auto simp: loweringInv_def)
  have n: "0 < length (mainBlocks c)" using assms by (auto simp: loweringInv_def)
  then have n': "length (mainBlocks c) \<noteq> 0" by simp
  show ?thesis
  proof (cases "currentBlock c")
    case None
    then show ?thesis
      using n n' by (simp add: blocksAfterLabel_def Let_def appendInstr_nth_other nth_append)
  next
    case (Some b)
    then show ?thesis
      using n n' cb [OF Some]
      by (simp add: blocksAfterLabel_def Let_def appendInstr_nth_other nth_append)
  qed
qed


lemma blockName_blocksAfterLabel:
  assumes "j < Suc (length (mainBlocks c))"
  shows "blockName (blocksAfterLabel l c ! j) =
        (if j = length (mainBlocks c) then l else blockName (mainBlocks c ! j))"
proof -
  have "blockName (blocksAfterLabel l c ! j) = map blockName (blocksAfterLabel l c) ! j"
    by (rule nth_map [symmetric]) (simp add: assms)
  also have "\<dots> = (map blockName (mainBlocks c) @ [l]) ! j"
    by (simp only: names_blocksAfterLabel)
  also have "\<dots> = (if j = length (mainBlocks c) then l else blockName (mainBlocks c ! j))"
    using assms by (simp add: nth_append)
  finally show ?thesis .
qed




lemma loweringInv_LSC:
  assumes "loweringInv c"
  shows "loweringInv (LabeledStatement_Compile l c)"
proof (cases "labeledData c l")
  case (Some g)
  with assms show ?thesis by (simp add: LSC_skip)
next
  case None
  let ?n = "length (mainBlocks c)"
  let ?c' = "LabeledStatement_Compile l c"
  have old: "\<And>i. 1 \<le> i \<Longrightarrow> i < ?n \<Longrightarrow> \<not> terminated (mainBlocks c ! i)
      \<Longrightarrow> currentBlock c = Some i"
    using assms unfolding loweringInv_def by blast
  have n: "1 \<le> ?n" using assms unfolding loweringInv_def by blast
  have len: "length (mainBlocks ?c') = Suc ?n"
    by (simp add: LSC_mainBlocks [OF None])
  have a: "1 \<le> length (mainBlocks ?c')"
    by (simp add: len)
  have b: "1 \<le> cb \<and> cb < length (mainBlocks ?c')" if "currentBlock ?c' = Some cb" for cb
  proof -
    from that have "cb = ?n"
      by (simp add: LSC_currentBlock [OF None] split: if_splits)
    with n show ?thesis by (simp add: len)
  qed
  have c: "currentBlock ?c' = Some i"
    if i1: "1 \<le> i" and i2: "i < length (mainBlocks ?c')"
      and nt: "\<not> terminated (mainBlocks ?c' ! i)" for i
  proof -
    from i2 have j: "i < Suc ?n" by (simp add: len)
    from nt have nt': "\<not> terminated (blocksAfterLabel l c ! i)"
      by (simp add: LSC_mainBlocks [OF None])
    show ?thesis
    proof (cases "i = ?n")
      case True
      with nt' terminated_blocksAfterLabel [OF assms j, of l]
      show ?thesis by (simp add: LSC_currentBlock [OF None])
    next
      case False
      with j have lt: "i < ?n" by simp
      from nt' terminated_blocksAfterLabel [OF assms j, of l] False
      have "currentBlock c \<noteq> Some i" "\<not> terminated (mainBlocks c ! i)" by simp_all
      with old [OF i1 lt] show ?thesis by simp
    qed
  qed
  show ?thesis
    unfolding loweringInv_def
  proof (intro conjI allI impI)
    show "1 \<le> length (mainBlocks ?c')" by (rule a)
  next
    fix cb assume "currentBlock ?c' = Some cb"
    from b [OF this] show "1 \<le> cb" by simp
  next
    fix cb assume "currentBlock ?c' = Some cb"
    from b [OF this] show "cb < length (mainBlocks ?c')" by simp
  next
    fix i assume "1 \<le> i \<and> i < length (mainBlocks ?c') \<and> \<not> terminated (mainBlocks ?c' ! i)"
    then show "currentBlock ?c' = Some i" using c by blast
  qed
qed

lemma vectorsInv_LSC:
  assumes "vectorsInv c" and n1: "1 \<le> length (mainBlocks c)"
  shows "vectorsInv (LabeledStatement_Compile l c)"
proof (cases "labeledData c l")
  case (Some g)
  with assms show ?thesis by (simp add: LSC_skip)
next
  case None
  let ?n = "length (mainBlocks c)"
  let ?c' = "LabeledStatement_Compile l c"
  have vn: "\<And>n. nmiBlock c = Some n \<Longrightarrow>
      1 \<le> n \<and> n < ?n \<and> blockName (mainBlocks c ! n) = nmiLabelName c"
   and vr: "\<And>r. resetBlock c = Some r \<Longrightarrow>
      1 \<le> r \<and> r < ?n \<and> blockName (mainBlocks c ! r) = resetLabelName c \<and>
      resetLabelName c \<noteq> nmiLabelName c"
   and vi: "\<And>i. irqBlock c = Some i \<Longrightarrow>
      1 \<le> i \<and> i < ?n \<and> blockName (mainBlocks c ! i) = irqLabelName c \<and>
      irqLabelName c \<noteq> nmiLabelName c \<and> irqLabelName c \<noteq> resetLabelName c"
    using assms(1) unfolding vectorsInv_def by blast+
  have len: "length (mainBlocks ?c') = Suc ?n"
    by (simp add: LSC_mainBlocks [OF None])
  have new: "blockName (mainBlocks ?c' ! ?n) = l"
    by (simp add: LSC_mainBlocks [OF None] blockName_blocksAfterLabel)
  have keep: "blockName (mainBlocks ?c' ! j) = blockName (mainBlocks c ! j)" if "j < ?n" for j
    using that by (simp add: LSC_mainBlocks [OF None] blockName_blocksAfterLabel)
  note nb = LSC_nmiBlock [OF None] and rb = LSC_resetBlock [OF None]
    and ib = LSC_irqBlock [OF None]
  have nn: "nmiLabelName ?c' = nmiLabelName c" and rn: "resetLabelName ?c' = resetLabelName c"
    and irn: "irqLabelName ?c' = irqLabelName c"
    by (simp_all add: LSC_unchanged)
  have a: "1 \<le> n \<and> n < length (mainBlocks ?c') \<and>
      blockName (mainBlocks ?c' ! n) = nmiLabelName ?c'"
    if h: "nmiBlock ?c' = Some n" for n
  proof (cases "l = nmiLabelName c")
    case True
    from h nb True have "n = ?n" by simp
    with n1 True new show ?thesis unfolding len nn by simp
  next
    case False
    from h nb False have "nmiBlock c = Some n" by simp
    from vn [OF this] keep [of n] show ?thesis unfolding len nn by simp
  qed
  have b: "1 \<le> r \<and> r < length (mainBlocks ?c') \<and>
      blockName (mainBlocks ?c' ! r) = resetLabelName ?c' \<and>
      resetLabelName ?c' \<noteq> nmiLabelName ?c'"
    if h: "resetBlock ?c' = Some r" for r
  proof (cases "l \<noteq> nmiLabelName c \<and> l = resetLabelName c")
    case True
    from h rb True have "r = ?n" by auto
    with n1 True new show ?thesis unfolding len nn rn by auto
  next
    case False
    from h rb False have "resetBlock c = Some r" by auto
    from vr [OF this] keep [of r] show ?thesis unfolding len nn rn by simp
  qed
  have c: "1 \<le> i \<and> i < length (mainBlocks ?c') \<and>
      blockName (mainBlocks ?c' ! i) = irqLabelName ?c' \<and>
      irqLabelName ?c' \<noteq> nmiLabelName ?c' \<and> irqLabelName ?c' \<noteq> resetLabelName ?c'"
    if h: "irqBlock ?c' = Some i" for i
  proof (cases "l \<noteq> nmiLabelName c \<and> l \<noteq> resetLabelName c \<and> l = irqLabelName c")
    case True
    from h ib True have "i = ?n" by auto
    with n1 True new show ?thesis unfolding len nn rn irn by auto
  next
    case False
    from h ib False have "irqBlock c = Some i" by auto
    from vi [OF this] keep [of i] show ?thesis unfolding len nn rn irn by simp
  qed
  show ?thesis
    unfolding vectorsInv_def using a b c by blast
qed

section \<open>The two passes and the driver: lemmas\<close>

lemma modes_differ: "compileMode \<noteq> dataStmtMode"
  by (simp add: compileMode_def dataStmtMode_def)

lemma no_errors_added: "\<exists>es. c = c\<lparr>cErrors := cErrors c @ es\<rparr>"
  by (rule exI [of _ "[]"]) simp

lemma one_error_added: "\<exists>es. c\<lparr>cErrors := cErrors c @ [e]\<rparr> = c\<lparr>cErrors := cErrors c @ es\<rparr>"
  by (rule exI [of _ "[e]"]) simp

lemma Instruction_Compile_errors:
  "\<exists>es. Instruction_Compile i c = c\<lparr>cErrors := cErrors c @ es\<rparr>"
  by (cases i) (simp_all only: Instruction_Compile.simps lacksCompile_def no_errors_added one_error_added)

lemma visitForCompile_cases:
  "(\<exists>l. n = LabeledStatement l \<and> visitForCompile n c = LabeledStatement_Compile l c) \<or>
   ((\<forall>l. n \<noteq> LabeledStatement l) \<and> (\<exists>es. visitForCompile n c = c\<lparr>cErrors := cErrors c @ es\<rparr>))"
  by (cases n) (simp_all add: visitForCompile_def no_errors_added Instruction_Compile_errors)

lemma loweringInv_errors [simp]: "loweringInv (c\<lparr>cErrors := es\<rparr>) = loweringInv c"
  by (simp add: loweringInv_def)

lemma vectorsInv_errors [simp]: "vectorsInv (c\<lparr>cErrors := es\<rparr>) = vectorsInv c"
  by (simp add: vectorsInv_def)

lemma visitForCompile_inv:
  assumes "loweringInv c" and "vectorsInv c"
  shows "loweringInv (visitForCompile n c) \<and> vectorsInv (visitForCompile n c)"
proof -
  have n1: "1 \<le> length (mainBlocks c)" using assms(1) unfolding loweringInv_def by blast
  from visitForCompile_cases [of n c] show ?thesis
  proof
    assume "\<exists>l. n = LabeledStatement l \<and> visitForCompile n c = LabeledStatement_Compile l c"
    then obtain l where "visitForCompile n c = LabeledStatement_Compile l c" by blast
    with loweringInv_LSC [OF assms(1), of l] vectorsInv_LSC [OF assms(2) n1, of l]
    show ?thesis by simp
  next
    assume "(\<forall>l. n \<noteq> LabeledStatement l) \<and>
      (\<exists>es. visitForCompile n c = c\<lparr>cErrors := cErrors c @ es\<rparr>)"
    then obtain es where "visitForCompile n c = c\<lparr>cErrors := cErrors c @ es\<rparr>" by blast
    with assms show ?thesis by simp
  qed
qed

lemma visitForCompile_keeps:
  "labeledData (visitForCompile n c) = labeledData c"
  "nmiLabelName (visitForCompile n c) = nmiLabelName c"
  "resetLabelName (visitForCompile n c) = resetLabelName c"
  "irqLabelName (visitForCompile n c) = irqLabelName c"
  "mode (visitForCompile n c) = mode c"
  "modGlobals (visitForCompile n c) = modGlobals c"
  using visitForCompile_cases [of n c] by (auto simp: LSC_unchanged)

lemma visitForCompile_names:
  "map blockName (mainBlocks (visitForCompile n c)) =
     map blockName (mainBlocks c) @
       (case n of LabeledStatement l \<Rightarrow> (if labeledData c l = None then [l] else []) | _ \<Rightarrow> [])"
proof -
  from visitForCompile_cases [of n c] show ?thesis
  proof
    assume "\<exists>l. n = LabeledStatement l \<and> visitForCompile n c = LabeledStatement_Compile l c"
    then obtain l where l: "n = LabeledStatement l"
      "visitForCompile n c = LabeledStatement_Compile l c" by blast
    show ?thesis
    proof (cases "labeledData c l")
      case None
      with l show ?thesis by (simp add: LSC_mainBlocks)
    next
      case (Some g)
      with l show ?thesis by (simp add: LSC_skip)
    qed
  next
    assume "(\<forall>l. n \<noteq> LabeledStatement l) \<and>
      (\<exists>es. visitForCompile n c = c\<lparr>cErrors := cErrors c @ es\<rparr>)"
    then obtain es where "\<forall>l. n \<noteq> LabeledStatement l"
      "visitForCompile n c = c\<lparr>cErrors := cErrors c @ es\<rparr>" by blast
    then show ?thesis by (cases n) simp_all
  qed
qed

lemma visitForCompile_entry:
  assumes "loweringInv c"
  shows "mainBlocks (visitForCompile n c) ! 0 = mainBlocks c ! 0"
proof -
  from visitForCompile_cases [of n c] show ?thesis
  proof
    assume "\<exists>l. n = LabeledStatement l \<and> visitForCompile n c = LabeledStatement_Compile l c"
    then obtain l where l: "visitForCompile n c = LabeledStatement_Compile l c" by blast
    show ?thesis
    proof (cases "labeledData c l")
      case None
      with l nth0_blocksAfterLabel [OF assms, of l] show ?thesis by (simp add: LSC_mainBlocks)
    next
      case (Some g)
      with l show ?thesis by (simp add: LSC_skip)
    qed
  next
    assume "(\<forall>l. n \<noteq> LabeledStatement l) \<and>
      (\<exists>es. visitForCompile n c = c\<lparr>cErrors := cErrors c @ es\<rparr>)"
    then obtain es where "visitForCompile n c = c\<lparr>cErrors := cErrors c @ es\<rparr>" by blast
    then show ?thesis by simp
  qed
qed

lemma Ast_compile_mode:
  "mode c = compileMode \<Longrightarrow> Ast ns Visit c = Returns (fold visitForCompile ns c)"
  by (induction ns arbitrary: c) (simp_all add: Visit_def modes_differ visitForCompile_keeps)

lemma fold_visitForCompile_inv:
  "loweringInv c \<Longrightarrow> vectorsInv c \<Longrightarrow>
   loweringInv (fold visitForCompile ns c) \<and> vectorsInv (fold visitForCompile ns c)"
proof (induction ns arbitrary: c)
  case Nil
  then show ?case by simp
next
  case (Cons n ns)
  from visitForCompile_inv [OF Cons.prems, of n]
  have "loweringInv (visitForCompile n c)" "vectorsInv (visitForCompile n c)" by simp_all
  from Cons.IH [OF this] show ?case by simp
qed

lemma fold_visitForCompile_keeps:
  "labeledData (fold visitForCompile ns c) = labeledData c"
  "nmiLabelName (fold visitForCompile ns c) = nmiLabelName c"
  "resetLabelName (fold visitForCompile ns c) = resetLabelName c"
  "irqLabelName (fold visitForCompile ns c) = irqLabelName c"
  "modGlobals (fold visitForCompile ns c) = modGlobals c"
  by (induction ns arbitrary: c) (simp_all add: visitForCompile_keeps)

lemma fold_visitForCompile_names:
  "map blockName (mainBlocks (fold visitForCompile ns c)) =
     map blockName (mainBlocks c) @ filter (\<lambda>l. labeledData c l = None) (labelNames ns)"
proof (induction ns arbitrary: c)
  case Nil
  then show ?case by (simp add: labelNames_def)
next
  case (Cons n ns)
  have "labelNames (n # ns) = (case n of LabeledStatement l \<Rightarrow> [l] | _ \<Rightarrow> []) @ labelNames ns"
    by (simp add: labelNames_def)
  then show ?case
    by (cases n) (simp_all add: Cons.IH visitForCompile_names visitForCompile_keeps)
qed

lemma fold_visitForCompile_entry:
  "loweringInv c \<Longrightarrow> vectorsInv c \<Longrightarrow>
   mainBlocks (fold visitForCompile ns c) ! 0 = mainBlocks c ! 0"
proof (induction ns arbitrary: c)
  case Nil
  then show ?case by simp
next
  case (Cons n ns)
  from visitForCompile_inv [OF Cons.prems, of n]
  have "loweringInv (visitForCompile n c)" "vectorsInv (visitForCompile n c)" by simp_all
  from Cons.IH [OF this] visitForCompile_entry [OF Cons.prems(1), of n] show ?case by simp
qed

lemma codeState_visitForDataStmts: "codeState (visitForDataStmts n c) = codeState c"
  by (cases n)
    (simp_all add: codeState_def visitForDataStmts_def dataAddStmt_def dataStop_def dataStart_def)

lemma codeState_fold_data: "codeState (fold visitForDataStmts ns c) = codeState c"
  by (induction ns arbitrary: c) (simp_all add: codeState_visitForDataStmts)

lemma mode_visitForDataStmts: "mode (visitForDataStmts n c) = mode c"
  by (cases n) (simp_all add: visitForDataStmts_def dataAddStmt_def dataStop_def dataStart_def)

lemma Ast_data_mode:
  "mode c = dataStmtMode \<Longrightarrow> Ast ns Visit c = Returns (fold visitForDataStmts ns c)"
  by (induction ns arbitrary: c) (simp_all add: Visit_def mode_visitForDataStmts)

lemma dataPass_eq: "dataPass ast newCompilation = Returns (afterDataPass ast)"
  by (simp add: dataPass_def afterDataPass_def Ast_data_mode)

lemma codeState_afterDataPass:
  "codeState (afterDataPass ast) = ([], None, None, (None, None, None), ([], [], []), [], [])"
  by (simp add: afterDataPass_def codeState_fold_data) (simp add: codeState_def newCompilation_def)

lemma declareMain_eq:
  assumes "mainBlocks c = []"
  shows "declareMain c =
    (0, c\<lparr>modFunctions := modFunctions c @ [''putChar'', ''exit'', ''main''],
          mainBlocks := [entryBlock], builder := Some 0\<rparr>)"
  using assms
  by (simp add: declareMain_def AddBasicBlock_def SetInsertPointAtEnd_def CreateAlloca_def
      insertInstr_def appendInstr_def entryBlock_def Let_def)

lemma setUpEntryPoint_eq:
  "setUpEntryPoint offsets addr assign c =
    (case vectorLookup offsets addr of
       LookupLabel l \<Rightarrow> Returns (assign l c)
     | LookupFails e \<Rightarrow> Returns (c\<lparr>cErrors := cErrors c @ [e]\<rparr>)
     | LookupPanics \<Rightarrow> Panics ''index out of range'')"
  by (simp add: setUpEntryPoint_def vectorLookup_def
      split: option.splits Node.splits list.splits DataItem.splits)

lemma setUpEntryPoints_eq:
  assumes "\<forall>a \<in> set vectorAddrs. vectorLookup offsets a \<noteq> LookupPanics"
  shows "setUpEntryPoints offsets c =
    Returns (c\<lparr>nmiLabelName := lookupName (vectorLookup offsets 0xfffa) (nmiLabelName c),
               resetLabelName := lookupName (vectorLookup offsets 0xfffc) (resetLabelName c),
               irqLabelName := lookupName (vectorLookup offsets 0xfffe) (irqLabelName c),
               cErrors := cErrors c @ lookupErrors (vectorLookup offsets 0xfffa) @
                 lookupErrors (vectorLookup offsets 0xfffc) @
                 lookupErrors (vectorLookup offsets 0xfffe)\<rparr>)"
proof -
  have p: "vectorLookup offsets 0xfffa \<noteq> LookupPanics"
      "vectorLookup offsets 0xfffc \<noteq> LookupPanics"
      "vectorLookup offsets 0xfffe \<noteq> LookupPanics"
    using assms by (simp_all add: vectorAddrs_def)
  show ?thesis
    using p
    by (cases "vectorLookup offsets 0xfffa"; cases "vectorLookup offsets 0xfffc";
        cases "vectorLookup offsets 0xfffe")
      (simp_all add: setUpEntryPoints_def andThen_def setUpEntryPoint_eq lookupName_def
        lookupErrors_def)
qed

lemma setUpEntryPoints_panics:
  assumes "\<not> (\<forall>a \<in> set vectorAddrs. vectorLookup offsets a \<noteq> LookupPanics)"
  shows "setUpEntryPoints offsets c = Panics ''index out of range''"
proof -
  have p: "vectorLookup offsets 0xfffa = LookupPanics \<or>
      vectorLookup offsets 0xfffc = LookupPanics \<or>
      vectorLookup offsets 0xfffe = LookupPanics"
    using assms by (simp add: vectorAddrs_def)
  show ?thesis
    using p
    by (cases "vectorLookup offsets 0xfffa"; cases "vectorLookup offsets 0xfffc";
        cases "vectorLookup offsets 0xfffe")
      (simp_all add: setUpEntryPoints_def andThen_def setUpEntryPoint_eq)
qed

lemma afterDataPass_fields:
  "mainBlocks (afterDataPass ast) = []" "builder (afterDataPass ast) = None"
  "currentBlock (afterDataPass ast) = None" "nmiBlock (afterDataPass ast) = None"
  "resetBlock (afterDataPass ast) = None" "irqBlock (afterDataPass ast) = None"
  "nmiLabelName (afterDataPass ast) = []" "resetLabelName (afterDataPass ast) = []"
  "irqLabelName (afterDataPass ast) = []" "cErrors (afterDataPass ast) = []"
  "modFunctions (afterDataPass ast) = []"
  using codeState_afterDataPass [of ast] by (simp_all add: codeState_def)

lemma beforeCodegen_eq:
  "beforeCodegen ast offsets =
    (if lookupsReturn offsets then Returns (0, codegenStart ast offsets)
     else Panics ''index out of range'')"
proof (cases "lookupsReturn offsets")
  case True
  then have r: "\<forall>a \<in> set vectorAddrs. vectorLookup offsets a \<noteq> LookupPanics"
    by (simp add: lookupsReturn_def)
  show ?thesis
    using True
    by (simp add: beforeCodegen_def dataPass_eq andThen_def
        declareMain_eq [OF afterDataPass_fields(1)] setUpEntryPoints_eq [OF r]
        codegenStart_def afterDataPass_fields)
next
  case False
  then have r: "\<not> (\<forall>a \<in> set vectorAddrs. vectorLookup offsets a \<noteq> LookupPanics)"
    by (simp add: lookupsReturn_def)
  show ?thesis
    using False
    by (simp add: beforeCodegen_def dataPass_eq andThen_def
        declareMain_eq [OF afterDataPass_fields(1)] setUpEntryPoints_panics [OF r])
qed

lemma codegenStart_fields:
  "mainBlocks (codegenStart ast offsets) = [entryBlock]"
  "currentBlock (codegenStart ast offsets) = None"
  "nmiBlock (codegenStart ast offsets) = None"
  "resetBlock (codegenStart ast offsets) = None"
  "irqBlock (codegenStart ast offsets) = None"
  "labeledData (codegenStart ast offsets) = labeledData (afterDataPass ast)"
  "modGlobals (codegenStart ast offsets) = modGlobals (afterDataPass ast)"
  by (simp_all add: codegenStart_def afterDataPass_fields)

lemma codegenPass_eq:
  "codegenPass ns (codegenStart ast offsets) = Returns (pass2 ns ast offsets)"
  by (simp add: codegenPass_def pass2_def Ast_compile_mode)

lemma start_inv:
  "loweringInv ((codegenStart ast offsets)\<lparr>mode := compileMode\<rparr>)"
  "vectorsInv ((codegenStart ast offsets)\<lparr>mode := compileMode\<rparr>)"
  by (simp_all add: loweringInv_def vectorsInv_def codegenStart_fields)

lemma pass2_inv: "loweringInv (pass2 ns ast offsets)" "vectorsInv (pass2 ns ast offsets)"
  using fold_visitForCompile_inv [OF start_inv, of ns ast offsets] by (simp_all add: pass2_def)

lemma pass2_entry: "mainBlocks (pass2 ns ast offsets) ! 0 = entryBlock"
  using fold_visitForCompile_entry [OF start_inv, of ns ast offsets]
  by (simp add: pass2_def codegenStart_fields)

lemma pass2_names:
  "map blockName (mainBlocks (pass2 ns ast offsets)) =
     ''Entry'' # filter (\<lambda>l. labeledData (afterDataPass ast) l = None) (labelNames ns)"
  by (simp add: pass2_def fold_visitForCompile_names codegenStart_fields entryBlock_def)

lemma pass2_keeps:
  "labeledData (pass2 ns ast offsets) = labeledData (afterDataPass ast)"
  "modGlobals (pass2 ns ast offsets) = modGlobals (afterDataPass ast)"
  "nmiLabelName (pass2 ns ast offsets) = lookupName (vectorLookup offsets 0xfffa) []"
  "resetLabelName (pass2 ns ast offsets) = lookupName (vectorLookup offsets 0xfffc) []"
  "irqLabelName (pass2 ns ast offsets) = lookupName (vectorLookup offsets 0xfffe) []"
  by (simp_all add: pass2_def fold_visitForCompile_keeps codegenStart_fields)
    (simp_all add: codegenStart_def)

lemma loweringInvD:
  assumes "loweringInv c"
  shows "1 \<le> length (mainBlocks c)"
    and "\<And>cb. currentBlock c = Some cb \<Longrightarrow> 1 \<le> cb \<and> cb < length (mainBlocks c)"
    and "\<And>i. 1 \<le> i \<Longrightarrow> i < length (mainBlocks c) \<Longrightarrow> \<not> terminated (mainBlocks c ! i)
           \<Longrightarrow> currentBlock c = Some i"
  using assms unfolding loweringInv_def by blast+


lemma closeFinalBlock_eq:
  "closeFinalBlock c =
    (case currentBlock c of
       Some cb \<Rightarrow> c\<lparr>builder := Some cb, mainBlocks := appendInstr cb Unreachable (mainBlocks c)\<rparr>
     | None \<Rightarrow> c)"
  by (simp add: closeFinalBlock_def CreateUnreachable_def SetInsertPointAtEnd_def insertInstr_def
      split: option.splits)

lemma closeFinalBlock_keeps:
  "currentBlock (closeFinalBlock c) = currentBlock c"
  "nmiBlock (closeFinalBlock c) = nmiBlock c"
  "resetBlock (closeFinalBlock c) = resetBlock c"
  "irqBlock (closeFinalBlock c) = irqBlock c"
  "nmiLabelName (closeFinalBlock c) = nmiLabelName c"
  "resetLabelName (closeFinalBlock c) = resetLabelName c"
  "irqLabelName (closeFinalBlock c) = irqLabelName c"
  "labeledData (closeFinalBlock c) = labeledData c"
  "modGlobals (closeFinalBlock c) = modGlobals c"
  "cErrors (closeFinalBlock c) = cErrors c"
  "length (mainBlocks (closeFinalBlock c)) = length (mainBlocks c)"
  "map blockName (mainBlocks (closeFinalBlock c)) = map blockName (mainBlocks c)"
  by (simp_all add: closeFinalBlock_eq split: option.splits)

lemma closeFinalBlock_nth_name:
  "j < length (mainBlocks c) \<Longrightarrow>
   blockName (mainBlocks (closeFinalBlock c) ! j) = blockName (mainBlocks c ! j)"
  by (simp add: closeFinalBlock_eq split: option.splits)

lemma closeFinalBlock_terminated:
  assumes "loweringInv c" and "1 \<le> i" and "i < length (mainBlocks c)"
  shows "terminated (mainBlocks (closeFinalBlock c) ! i)"
proof (cases "currentBlock c")
  case None
  with loweringInvD(3) [OF assms(1) assms(2) assms(3)] show ?thesis
    by (auto simp: closeFinalBlock_eq)
next
  case (Some cb)
  show ?thesis
  proof (cases "i = cb")
    case True
    with Some assms(3) show ?thesis
      by (simp add: closeFinalBlock_eq terminated_appendInstr isTerminator_def)
  next
    case False
    with Some loweringInvD(3) [OF assms(1) assms(2) assms(3)]
    have "terminated (mainBlocks c ! i)" by auto
    with Some False assms(3) show ?thesis
      by (simp add: closeFinalBlock_eq terminated_appendInstr)
  qed
qed

lemma closeFinalBlock_entry:
  assumes "loweringInv c"
  shows "mainBlocks (closeFinalBlock c) ! 0 = mainBlocks c ! 0"
proof (cases "currentBlock c")
  case None
  then show ?thesis by (simp add: closeFinalBlock_eq)
next
  case (Some cb)
  with loweringInvD(2) [OF assms Some] show ?thesis
    by (simp add: closeFinalBlock_eq appendInstr_nth_other)
qed

lemma closeFinalBlock_openBlocks:
  assumes "loweringInv c"
  shows "openBlocks (closeFinalBlock c) = []"
proof -
  have "terminated (mainBlocks (closeFinalBlock c) ! i)"
    if "i \<in> set [1..<length (mainBlocks (closeFinalBlock c))]" for i
    using that closeFinalBlock_terminated [OF assms, of i] by (simp add: closeFinalBlock_keeps)
  then show ?thesis
    unfolding openBlocks_def by (simp only: filter_empty_conv) blast
qed

lemma closeFinalBlock_vectorsInv:
  assumes "vectorsInv c"
  shows "vectorsInv (closeFinalBlock c)"
proof -
  have vn: "\<And>n. nmiBlock c = Some n \<Longrightarrow>
      1 \<le> n \<and> n < length (mainBlocks c) \<and> blockName (mainBlocks c ! n) = nmiLabelName c"
   and vr: "\<And>r. resetBlock c = Some r \<Longrightarrow>
      1 \<le> r \<and> r < length (mainBlocks c) \<and> blockName (mainBlocks c ! r) = resetLabelName c \<and>
      resetLabelName c \<noteq> nmiLabelName c"
   and vi: "\<And>i. irqBlock c = Some i \<Longrightarrow>
      1 \<le> i \<and> i < length (mainBlocks c) \<and> blockName (mainBlocks c ! i) = irqLabelName c \<and>
      irqLabelName c \<noteq> nmiLabelName c \<and> irqLabelName c \<noteq> resetLabelName c"
    using assms unfolding vectorsInv_def by blast+
  show ?thesis
    unfolding vectorsInv_def closeFinalBlock_keeps
  proof (intro conjI allI impI)
    fix n assume h: "nmiBlock c = Some n"
    from vn [OF h] show "1 \<le> n" "n < length (mainBlocks c)"
      "blockName (mainBlocks (closeFinalBlock c) ! n) = nmiLabelName c"
      by (simp_all add: closeFinalBlock_nth_name)
  next
    fix r assume h: "resetBlock c = Some r"
    from vr [OF h] show "1 \<le> r" "r < length (mainBlocks c)"
      "blockName (mainBlocks (closeFinalBlock c) ! r) = resetLabelName c"
      "resetLabelName c \<noteq> nmiLabelName c"
      by (simp_all add: closeFinalBlock_nth_name)
  next
    fix i assume h: "irqBlock c = Some i"
    from vi [OF h] show "1 \<le> i" "i < length (mainBlocks c)"
      "blockName (mainBlocks (closeFinalBlock c) ! i) = irqLabelName c"
      "irqLabelName c \<noteq> nmiLabelName c" "irqLabelName c \<noteq> resetLabelName c"
      by (simp_all add: closeFinalBlock_nth_name)
  qed
qed

lemma lowered_eq:
  "lowered ast offsets =
    (if lookupsReturn offsets then Returns (0, loweredState ast offsets)
     else Panics ''index out of range'')"
  by (simp add: lowered_def beforeCodegen_eq andThen_def codegenPass_eq loweredState_def)

lemma Compile_eq:
  "Compile ast offsets =
    (if lookupsReturn offsets then Returns (hookUpEntryPoints 0 (loweredState ast offsets))
     else Panics ''index out of range'')"
  by (simp add: Compile_def lowered_eq andThen_def)

lemma loweredState_facts:
  "vectorsInv (loweredState ast offsets)"
  "openBlocks (loweredState ast offsets) = []"
  "mainBlocks (loweredState ast offsets) ! 0 = entryBlock"
  "1 \<le> length (mainBlocks (loweredState ast offsets))"
  "map blockName (mainBlocks (loweredState ast offsets)) =
     ''Entry'' # filter (\<lambda>l. labeledData (afterDataPass ast) l = None) (labelNames ast)"
  "labeledData (loweredState ast offsets) = labeledData (afterDataPass ast)"
  "modGlobals (loweredState ast offsets) = modGlobals (afterDataPass ast)"
  "nmiLabelName (loweredState ast offsets) = lookupName (vectorLookup offsets 0xfffa) []"
  "resetLabelName (loweredState ast offsets) = lookupName (vectorLookup offsets 0xfffc) []"
  "irqLabelName (loweredState ast offsets) = lookupName (vectorLookup offsets 0xfffe) []"
  unfolding loweredState_def
  using loweringInvD(1) [OF pass2_inv(1), of ast ast offsets]
  by (simp_all add: closeFinalBlock_vectorsInv pass2_inv closeFinalBlock_openBlocks
      closeFinalBlock_entry pass2_entry closeFinalBlock_keeps pass2_names pass2_keeps)


lemma lowered_ReturnsD:
  assumes "lowered ast offsets = Returns (entry, c)"
  shows "lookupsReturn offsets" and "entry = 0" and "c = loweredState ast offsets"
  using assms by (simp_all add: lowered_eq split: if_splits)



lemma vectors_distinct:
  assumes "vectorsInv c" and "nmiBlock c = Some n" and "resetBlock c = Some r"
    and "irqBlock c = Some i"
  shows "r \<noteq> n \<and> r \<noteq> i \<and> 1 \<le> r \<and> r < length (mainBlocks c) \<and>
    blockName (mainBlocks c ! r) = resetLabelName c"
proof -
  have vn: "blockName (mainBlocks c ! n) = nmiLabelName c"
   and vr: "1 \<le> r \<and> r < length (mainBlocks c) \<and> blockName (mainBlocks c ! r) = resetLabelName c \<and>
      resetLabelName c \<noteq> nmiLabelName c"
   and vi: "blockName (mainBlocks c ! i) = irqLabelName c \<and>
      irqLabelName c \<noteq> resetLabelName c"
    using assms unfolding vectorsInv_def by blast+
  from vn vr vi show ?thesis by auto
qed

text \<open>
  C4. After the second pass: when one of the three vector blocks is unset,
  \<^verbatim>\<open>Compile\<close> appends the missing-entry-point error of the first unset vector (in the
  order nmi, reset, irq) and returns without reaching the verification of the module.
  When all three are set, it reaches verification with one more instruction in the
  module: a branch at the end of \<^verbatim>\<open>Entry\<close> into the reset block, which is a block
  named as the reset label and is neither the nmi block, nor the irq block, nor
  \<^verbatim>\<open>Entry\<close>.
\<close>

theorem entry_points_hooked_up:
  assumes "lowered ast offsets = Returns (entry, c)"
  shows "(nmiBlock c = None \<or> resetBlock c = None \<or> irqBlock c = None \<longrightarrow>
      Compile ast offsets =
        Returns (ReturnedEarly,
          c\<lparr>cErrors := cErrors c @
               [if nmiBlock c = None then MissingNmiEntryPoint
                else if resetBlock c = None then MissingResetEntryPoint
                else MissingIrqEntryPoint]\<rparr>))
    \<and> (\<forall>n r i. nmiBlock c = Some n \<and> resetBlock c = Some r \<and> irqBlock c = Some i \<longrightarrow>
          r \<noteq> n \<and> r \<noteq> i \<and> r \<noteq> entry \<and> r < length (mainBlocks c) \<and>
          blockName (mainBlocks c ! r) = resetLabelName c \<and>
          mainBlocks c ! entry = entryBlock \<and>
          Compile ast offsets =
            Returns (ReachedVerifyModule,
              c\<lparr>builder := Some entry,
                mainBlocks := (mainBlocks c)
                  [entry := entryBlock\<lparr>blockInstrs := blockInstrs entryBlock @ [Br r]\<rparr>]\<rparr>))"
proof -
  note d = lowered_ReturnsD [OF assms]
  have C: "Compile ast offsets = Returns (hookUpEntryPoints 0 c)"
    using d by (simp add: Compile_eq)
  have e0: "mainBlocks c ! 0 = entryBlock" and n1: "0 < length (mainBlocks c)"
    and vinv: "vectorsInv c"
    using loweredState_facts(1,3,4) [of ast offsets] by (simp_all add: d(3) Suc_le_eq)
  have early: "nmiBlock c = None \<or> resetBlock c = None \<or> irqBlock c = None \<longrightarrow>
      Compile ast offsets =
        Returns (ReturnedEarly,
          c\<lparr>cErrors := cErrors c @
               [if nmiBlock c = None then MissingNmiEntryPoint
                else if resetBlock c = None then MissingResetEntryPoint
                else MissingIrqEntryPoint]\<rparr>)"
    unfolding C by (auto simp: hookUpEntryPoints_def)
  have hooked: "r \<noteq> n \<and> r \<noteq> i \<and> r \<noteq> entry \<and> r < length (mainBlocks c) \<and>
          blockName (mainBlocks c ! r) = resetLabelName c \<and>
          mainBlocks c ! entry = entryBlock \<and>
          Compile ast offsets =
            Returns (ReachedVerifyModule,
              c\<lparr>builder := Some entry,
                mainBlocks := (mainBlocks c)
                  [entry := entryBlock\<lparr>blockInstrs := blockInstrs entryBlock @ [Br r]\<rparr>]\<rparr>)"
    if h: "nmiBlock c = Some n" "resetBlock c = Some r" "irqBlock c = Some i" for n r i
  proof -
    from vectors_distinct [OF vinv h]
    have v: "r \<noteq> n" "r \<noteq> i" "1 \<le> r" "r < length (mainBlocks c)"
      "blockName (mainBlocks c ! r) = resetLabelName c" by simp_all
    have "hookUpEntryPoints 0 c =
      (ReachedVerifyModule,
       c\<lparr>builder := Some 0,
         mainBlocks := (mainBlocks c)
           [0 := entryBlock\<lparr>blockInstrs := blockInstrs entryBlock @ [Br r]\<rparr>]\<rparr>)"
      using h n1 e0
      by (simp add: hookUpEntryPoints_def CreateBr_def SetInsertPointAtEnd_def insertInstr_def
          appendInstr_def)
    with v e0 C show ?thesis by (simp add: d(2))
  qed
  show ?thesis using early hooked by blast
qed

lemmas pass1_eval = visitForDataStmts_def dataAddStmt_def dataStop_def dataStart_def
lemmas pass2_eval = visitForCompile_def LabeledStatement_Compile_def AddBasicBlock_def
  CreateBr_def CreateUnreachable_def SetInsertPointAtEnd_def insertInstr_def appendInstr_def
  lacksCompile_def closeFinalBlock_def Let_def

lemma sample_afterDataPass:
  "afterDataPass sampleAst =
     newCompilation
       \<lparr>modGlobals := [\<lparr>globalName = ''msg'', globalLinkage = PrivateLinkage,
                         globalInitializer = [72, 105, 0]\<rparr>],
        labeledData := [''msg'' \<mapsto> 0], currentLabel := ''irq'', mode := dataStmtMode\<rparr>"
  by (simp add: afterDataPass_def sampleAst_def pass1_eval newCompilation_def)

lemma sample_vectorLookups:
  "vectorLookup sampleOffsets 0xfffa = LookupLabel ''nmi''"
  "vectorLookup sampleOffsets 0xfffc = LookupLabel ''reset''"
  "vectorLookup sampleOffsets 0xfffe = LookupLabel ''irq''"
  "vectorLookup byteResetOffsets 0xfffa = LookupLabel ''nmi''"
  "vectorLookup byteResetOffsets 0xfffc = LookupFails EntryPointMustBeDcw"
  "vectorLookup byteResetOffsets 0xfffe = LookupLabel ''irq''"
  "vectorLookup Map.empty 0xfffa = LookupFails MissingEntryPointAt"
  by (simp_all add: vectorLookup_def sampleOffsets_def byteResetOffsets_def)

lemma sample_vectorLookupsReturn: "lookupsReturn sampleOffsets" "lookupsReturn byteResetOffsets"
  by (simp_all add: lookupsReturn_def vectorAddrs_def sample_vectorLookups)

lemma sample_codegenStart:
  "labeledData (codegenStart sampleAst offsets) = [''msg'' \<mapsto> 0]"
  "modGlobals (codegenStart sampleAst offsets) =
     [\<lparr>globalName = ''msg'', globalLinkage = PrivateLinkage, globalInitializer = [72, 105, 0]\<rparr>]"
  by (simp_all add: codegenStart_fields sample_afterDataPass)

lemma sample_run:
  assumes "labeledData c0 = [''msg'' \<mapsto> 0]" and "mainBlocks c0 = [entryBlock]"
    and "currentBlock c0 = None" and "nmiLabelName c0 = ''nmi''"
    and "resetLabelName c0 = ''reset''" and "irqLabelName c0 = ''irq''"
  shows "closeFinalBlock (fold visitForCompile sampleAst (c0\<lparr>mode := compileMode\<rparr>)) =
    c0\<lparr>mode := compileMode, mainBlocks := sampleBlocks, builder := Some 4,
       cErrors := cErrors c0 @ [LacksCompile ''ImmediateInstruction''],
       nmiBlock := Some 1, resetBlock := Some 2, irqBlock := Some 4, currentBlock := None\<rparr>"
  using assms by (simp add: sampleAst_def pass2_eval sampleBlocks_def)

lemma sample_run_no_reset:
  assumes "labeledData c0 = [''msg'' \<mapsto> 0]" and "mainBlocks c0 = [entryBlock]"
    and "currentBlock c0 = None" and "nmiLabelName c0 = ''nmi''"
    and "resetLabelName c0 = []" and "irqLabelName c0 = ''irq''"
  shows "closeFinalBlock (fold visitForCompile sampleAst (c0\<lparr>mode := compileMode\<rparr>)) =
    c0\<lparr>mode := compileMode, mainBlocks := sampleBlocks, builder := Some 4,
       cErrors := cErrors c0 @ [LacksCompile ''ImmediateInstruction''],
       nmiBlock := Some 1, irqBlock := Some 4, currentBlock := None\<rparr>"
  using assms by (simp add: sampleAst_def pass2_eval sampleBlocks_def)

lemma sample_loweredState:
  "loweredState sampleAst sampleOffsets =
     (codegenStart sampleAst sampleOffsets)
       \<lparr>mode := compileMode, mainBlocks := sampleBlocks, builder := Some 4,
        cErrors := [LacksCompile ''ImmediateInstruction''],
        nmiBlock := Some 1, resetBlock := Some 2, irqBlock := Some 4, currentBlock := None\<rparr>"
proof -
  let ?c0 = "codegenStart sampleAst sampleOffsets"
  have n: "nmiLabelName ?c0 = ''nmi''" "resetLabelName ?c0 = ''reset''"
    "irqLabelName ?c0 = ''irq''" "cErrors ?c0 = []"
    by (simp_all add: codegenStart_def sample_vectorLookups lookupName_def lookupErrors_def)
  show ?thesis
    unfolding loweredState_def pass2_def
    using sample_run [OF sample_codegenStart(1) codegenStart_fields(1,2) n(1,2,3)]
    by (simp add: n)
qed

lemma sample_loweredState_byteReset:
  "loweredState sampleAst byteResetOffsets =
     (codegenStart sampleAst byteResetOffsets)
       \<lparr>mode := compileMode, mainBlocks := sampleBlocks, builder := Some 4,
        cErrors := [EntryPointMustBeDcw, LacksCompile ''ImmediateInstruction''],
        nmiBlock := Some 1, irqBlock := Some 4, currentBlock := None\<rparr>"
proof -
  let ?c0 = "codegenStart sampleAst byteResetOffsets"
  have n: "nmiLabelName ?c0 = ''nmi''" "resetLabelName ?c0 = []"
    "irqLabelName ?c0 = ''irq''" "cErrors ?c0 = [EntryPointMustBeDcw]"
    by (simp_all add: codegenStart_def sample_vectorLookups lookupName_def lookupErrors_def)
  show ?thesis
    unfolding loweredState_def pass2_def
    using sample_run_no_reset [OF sample_codegenStart(1) codegenStart_fields(1,2) n(1,2,3)]
    by (simp add: n)
qed

lemma dataInvD:
  assumes "dataInv S c"
  shows "\<And>l g. labeledData c l = Some g \<Longrightarrow>
      g < length (modGlobals c) \<and> globalName (modGlobals c ! g) = l \<and> l \<in> S"
    and "currentLabel c = [] \<or> currentLabel c \<in> S"
  using assms unfolding dataInv_def by blast+

lemma dataInvI:
  assumes "\<And>l g. labeledData c l = Some g \<Longrightarrow>
      g < length (modGlobals c) \<and> globalName (modGlobals c ! g) = l \<and> l \<in> S"
    and "currentLabel c = [] \<or> currentLabel c \<in> S"
  shows "dataInv S c"
  using assms unfolding dataInv_def by blast

lemma dataInv_mono: "dataInv S c \<Longrightarrow> S \<subseteq> T \<Longrightarrow> dataInv T c"
  unfolding dataInv_def by blast

lemma dataInv_dataStop:
  assumes "dataInv S c"
  shows "dataInv S (dataStop c)"
proof (cases "length (currentLabel c) = 0 \<or> length (currentValue c) = 0")
  case True
  then have "dataStop c = c" by (auto simp: dataStop_def)
  with assms show ?thesis by simp
next
  case False
  let ?g = "\<lparr>globalName = currentLabel c, globalLinkage = PrivateLinkage,
              globalInitializer = currentValue c\<rparr>"
  from False have eq: "dataStop c =
      c\<lparr>modGlobals := modGlobals c @ [?g],
        labeledData := (labeledData c)(currentLabel c \<mapsto> length (modGlobals c)),
        currentLabel := []\<rparr>"
    by (simp add: dataStop_def)
  from False dataInvD(2) [OF assms] have inS: "currentLabel c \<in> S" by auto
  show ?thesis
  proof (rule dataInvI)
    fix l g assume h: "labeledData (dataStop c) l = Some g"
    show "g < length (modGlobals (dataStop c)) \<and> globalName (modGlobals (dataStop c) ! g) = l \<and>
        l \<in> S"
    proof (cases "l = currentLabel c")
      case True
      with h have "g = length (modGlobals c)" by (simp add: eq)
      with True inS show ?thesis by (simp add: eq)
    next
      case False
      with h have "labeledData c l = Some g" by (simp add: eq)
      from dataInvD(1) [OF assms this] show ?thesis by (simp add: eq nth_append)
    qed
  next
    show "currentLabel (dataStop c) = [] \<or> currentLabel (dataStop c) \<in> S"
      by (simp add: eq)
  qed
qed

lemma dataInv_visit:
  assumes "dataInv S c"
  shows "dataInv (S \<union> set (nodeLabels n)) (visitForDataStmts n c)"
proof -
  have stop: "dataInv (S \<union> set (nodeLabels n)) (dataStop c)"
    using dataInv_mono [OF dataInv_dataStop [OF assms]] by blast
  have keep: "dataInv (S \<union> set (nodeLabels n)) c"
    using dataInv_mono [OF assms] by blast
  show ?thesis
  proof (cases n)
    case (DataStatement items off)
    have "dataInv (S \<union> set (nodeLabels n)) (dataAddStmt items off c)"
      using keep unfolding dataInv_def dataAddStmt_def by auto
    with DataStatement show ?thesis by (simp add: visitForDataStmts_def)
  next
    case (LabeledStatement l)
    have "dataInv (S \<union> set (nodeLabels n)) (dataStart l (dataStop c))"
      using stop LabeledStatement unfolding dataInv_def dataStart_def nodeLabels_def by auto
    with LabeledStatement show ?thesis by (simp add: visitForDataStmts_def)
  qed (use stop in \<open>simp_all add: visitForDataStmts_def\<close>)
qed

lemma dataInv_fold:
  "dataInv S c \<Longrightarrow> dataInv (S \<union> set (labelNames ns)) (fold visitForDataStmts ns c)"
proof (induction ns arbitrary: S c)
  case Nil
  then show ?case by (simp add: labelNames_def)
next
  case (Cons n ns)
  have "S \<union> set (labelNames (n # ns)) = (S \<union> set (nodeLabels n)) \<union> set (labelNames ns)"
    by (auto simp: labelNames_def nodeLabels_def)
  with Cons.IH [OF dataInv_visit [OF Cons.prems, of n]] show ?case by simp
qed

lemma dataInv_afterDataPass: "dataInv (set (labelNames ast)) (afterDataPass ast)"
proof -
  have "dataInv {} (newCompilation\<lparr>mode := dataStmtMode\<rparr>)"
    by (simp add: dataInv_def newCompilation_def)
  from dataInv_fold [OF this, of ast] show ?thesis by (simp add: afterDataPass_def)
qed

section \<open>The claims about the lowering\<close>

lemma writeItems_eq: "writeItems items buf = buf @ concat (map itemBytes items)"
  by (induction items buf rule: writeItems.induct) (simp_all add: itemBytes_def)

lemma fold_dataNodes:
  "currentLabel c \<noteq> [] \<Longrightarrow>
   fold visitForDataStmts (map dataNode ds) c =
     c\<lparr>currentValue := currentValue c @ concat (map stmtBytes ds)\<rparr>"
proof (induction ds arbitrary: c)
  case Nil
  then show ?case by simp
next
  case (Cons d ds)
  let ?c1 = "c\<lparr>currentValue := currentValue c @ stmtBytes d\<rparr>"
  have step: "visitForDataStmts (dataNode d) c = ?c1"
    using Cons.prems
    by (simp add: visitForDataStmts_def dataNode_def dataAddStmt_def writeItems_eq stmtBytes_def)
  have "currentLabel ?c1 \<noteq> []" using Cons.prems by simp
  from Cons.IH [OF this] step show ?case by simp
qed

lemma nonData_globals:
  "\<not> isDataStatement x \<Longrightarrow>
     modGlobals (visitForDataStmts x c) = modGlobals (dataStop c) \<and>
     labeledData (visitForDataStmts x c) = labeledData (dataStop c)"
  by (cases x) (simp_all add: visitForDataStmts_def isDataStatement_def dataStart_def)

lemma dataStop_after_start:
  "labelName \<noteq> [] \<Longrightarrow>
   modGlobals (dataStop ((dataStart labelName c0)\<lparr>currentValue := bs\<rparr>)) =
     (if bs = [] then modGlobals c0
      else modGlobals c0 @
        [\<lparr>globalName = labelName, globalLinkage = PrivateLinkage, globalInitializer = bs\<rparr>]) \<and>
   labeledData (dataStop ((dataStart labelName c0)\<lparr>currentValue := bs\<rparr>)) =
     (if bs = [] then labeledData c0
      else (labeledData c0)(labelName \<mapsto> length (modGlobals c0)))"
  by (simp add: dataStop_def dataStart_def)

text \<open>
  C5. In the first pass, from any state, a labeled statement with a non-empty name,
  followed by data statements and then a statement that is no data statement, adds
  exactly one global to those present once the buffer open before the label is
  finalized: it is named after the label, has private linkage, and its initializer is
  the concatenation, in source order, of the items' bytes (an integer item is one byte,
  a string item its characters' bytes); the label maps to it. When the data statements
  hold no byte at all, no global is added and the label maps to none.
\<close>

theorem label_data_run_one_global:
  assumes "mode c = dataStmtMode" and "labelName \<noteq> []" and "\<not> isDataStatement x"
  shows "\<exists>c'. Ast (LabeledStatement labelName # map dataNode ds @ [x]) Visit c = Returns c' \<and>
    (if concat (map stmtBytes ds) = []
     then modGlobals c' = modGlobals (dataStop c) \<and> labeledData c' = labeledData (dataStop c)
     else modGlobals c' = modGlobals (dataStop c) @
            [\<lparr>globalName = labelName, globalLinkage = PrivateLinkage,
              globalInitializer = concat (map stmtBytes ds)\<rparr>] \<and>
          labeledData c' = (labeledData (dataStop c))(labelName \<mapsto> length (modGlobals (dataStop c))))"
proof -
  let ?c1 = "dataStart labelName (dataStop c)"
  let ?c2 = "?c1\<lparr>currentValue := concat (map stmtBytes ds)\<rparr>"
  have l: "currentLabel ?c1 \<noteq> []" using assms(2) by (simp add: dataStart_def)
  have v1: "currentValue ?c1 = []" by (simp add: dataStart_def)
  have "fold visitForDataStmts (map dataNode ds) ?c1 = ?c2"
    using fold_dataNodes [OF l, of ds] v1 by simp
  then have run: "fold visitForDataStmts (LabeledStatement labelName # map dataNode ds @ [x]) c =
      visitForDataStmts x ?c2"
    by (simp add: visitForDataStmts_def)
  have A: "Ast (LabeledStatement labelName # map dataNode ds @ [x]) Visit c =
      Returns (visitForDataStmts x ?c2)"
    by (simp only: Ast_data_mode [OF assms(1)] run)
  have fin: "modGlobals (visitForDataStmts x ?c2) = modGlobals (dataStop ?c2)"
     "labeledData (visitForDataStmts x ?c2) = labeledData (dataStop ?c2)"
    using nonData_globals [OF assms(3), of ?c2] by simp_all
  show ?thesis
    unfolding A
    using dataStop_after_start [OF assms(2), where ?c0.0 = "dataStop c"
        and bs = "concat (map stmtBytes ds)"]
    by (simp only: fin outcome.inject simp_thms ex_simps split: if_splits)
qed

lemma sampleData_bytes: "concat (map stmtBytes sampleData) = [72, 105, 10, 0]"
  by (simp add: sampleData_def stmtBytes_def itemBytes_def)

lemma dataStop_new: "dataStop newCompilation = newCompilation"
  by (simp add: dataStop_def newCompilation_def)

theorem label_data_run_one_global_witness:
  "mode newCompilation = dataStmtMode \<and> ''msg'' \<noteq> [] \<and> \<not> isDataStatement OtherNode
   \<and> (\<exists>c'. Ast (LabeledStatement ''msg'' # map dataNode sampleData @ [OtherNode]) Visit
            newCompilation = Returns c' \<and>
          modGlobals c' = [\<lparr>globalName = ''msg'', globalLinkage = PrivateLinkage,
                            globalInitializer = [72, 105, 10, 0]\<rparr>] \<and>
          labeledData c' ''msg'' = Some 0)
   \<and> (\<exists>c'. Ast (LabeledStatement ''msg'' # map dataNode [] @ [OtherNode]) Visit
            newCompilation = Returns c' \<and> modGlobals c' = [] \<and> labeledData c' ''msg'' = None)"
proof -
  have m: "mode newCompilation = dataStmtMode"
    by (simp add: newCompilation_def dataStmtMode_def)
  have l: "''msg'' \<noteq> []" by simp
  have x: "\<not> isDataStatement OtherNode" by (simp add: isDataStatement_def)
  have g: "modGlobals newCompilation = []" "labeledData newCompilation = Map.empty"
    by (simp_all add: newCompilation_def)
  show ?thesis
    using label_data_run_one_global [OF m l x, of sampleData]
      label_data_run_one_global [OF m l x, of "[]"] m x
    by (auto simp add: sampleData_bytes dataStop_new g simp del: Ast.simps)
qed

text \<open>
  C6. The code at the failing input: after the label \<open>L\<close> and a statement that is
  neither data nor a label, the buffer of \<open>L\<close> is still open (\<^verbatim>\<open>dataStop\<close> returns
  on the empty buffer before it clears the label). The data statement that follows is
  appended to it with no warning, and the next statement turns it into the global
  \<open>L\<close>.
\<close>

theorem empty_buffer_keeps_label_open:
  "Ast [LabeledStatement ''L'', OtherNode] Visit newCompilation =
     Returns (newCompilation\<lparr>currentLabel := ''L''\<rparr>)
   \<and> Ast [LabeledStatement ''L'', OtherNode, DataStatement [IntegerDataItem 1] 0x10] Visit
       newCompilation =
     Returns (newCompilation\<lparr>currentLabel := ''L'', currentValue := [1]\<rparr>)
   \<and> Ast [LabeledStatement ''L'', OtherNode, DataStatement [IntegerDataItem 1] 0x10, OtherNode]
       Visit newCompilation =
     Returns (newCompilation
       \<lparr>modGlobals := [\<lparr>globalName = ''L'', globalLinkage = PrivateLinkage,
                          globalInitializer = [1]\<rparr>],
        labeledData := [''L'' \<mapsto> 0], currentValue := [1]\<rparr>)"
  by (simp add: Visit_def visitForDataStmts_def dataStop_def dataStart_def dataAddStmt_def
      newCompilation_def dataStmtMode_def)


lemma hookUpEntryPoints_keeps:
  "labeledData (snd (hookUpEntryPoints e c)) = labeledData c"
  "modGlobals (snd (hookUpEntryPoints e c)) = modGlobals c"
  "map blockName (mainBlocks (snd (hookUpEntryPoints e c))) = map blockName (mainBlocks c)"
  by (simp_all add: hookUpEntryPoints_def CreateBr_def SetInsertPointAtEnd_def insertInstr_def)

lemma labelBlockNames_eq: "labelBlockNames c = tl (map blockName (mainBlocks c))"
  by (simp add: labelBlockNames_def map_tl)

lemma Compile_ReturnsD:
  assumes "Compile ast offsets = Returns (ph, c)"
  shows "lookupsReturn offsets" and "c = snd (hookUpEntryPoints 0 (loweredState ast offsets))"
  using assms by (auto simp: Compile_eq split: if_splits)

lemma basicBlocks_visitForDataStmts: "basicBlocks (visitForDataStmts n c) = basicBlocks c"
  by (cases n) (simp_all add: visitForDataStmts_def dataAddStmt_def dataStop_def dataStart_def)

lemma basicBlocks_afterDataPass: "basicBlocks (afterDataPass ast) = Map.empty"
proof -
  have "basicBlocks (fold visitForDataStmts ns c) = basicBlocks c" for ns c
    by (induction ns arbitrary: c) (simp_all add: basicBlocks_visitForDataStmts)
  then show ?thesis by (simp add: afterDataPass_def newCompilation_def)
qed

lemma basicBlocks_LSC: "basicBlocks (LabeledStatement_Compile l c) = basicBlocks c"
  by (auto simp add: LSC_defs split: option.splits)

lemma basicBlocks_visitForCompile: "basicBlocks (visitForCompile n c) = basicBlocks c"
  using visitForCompile_cases [of n c] by (auto simp: basicBlocks_LSC)

lemma basicBlocks_loweredState: "basicBlocks (loweredState ast offsets) = Map.empty"
proof -
  have "basicBlocks (fold visitForCompile ns c) = basicBlocks c" for ns c
    by (induction ns arbitrary: c) (simp_all add: basicBlocks_visitForCompile)
  then show ?thesis
    by (simp add: loweredState_def pass2_def closeFinalBlock_eq codegenStart_def
        basicBlocks_afterDataPass split: option.splits)
qed

lemma basicBlocks_hookUpEntryPoints:
  "basicBlocks (snd (hookUpEntryPoints e c)) = basicBlocks c"
  by (simp add: hookUpEntryPoints_def CreateBr_def SetInsertPointAtEnd_def insertInstr_def)

lemma basicBlocks_Compile:
  assumes "Compile ast offsets = Returns (ph, c)"
  shows "basicBlocks c = Map.empty"
  using Compile_ReturnsD(2) [OF assms]
  by (simp add: basicBlocks_hookUpEntryPoints basicBlocks_loweredState)

text \<open>
  C7, amended. When \<^verbatim>\<open>Compile\<close> returns, the blocks after \<^verbatim>\<open>Entry\<close> are, in
  source order, those of the labeled statements whose label is not in the
  label-to-global map. So a label of the program either is in that map or has a block
  of \<^verbatim>\<open>main\<close> named after it, never both; a label in the map maps to a global of the
  module named after it. The label-to-block map \<^verbatim>\<open>basicBlocks\<close> is empty: the code
  never writes it, and a label's block is recorded in \<^verbatim>\<open>main\<close> only. The second pass
  leaves the state as it is on a labeled statement whose label is in the
  label-to-global map.
\<close>

theorem label_owns_data_or_block:
  assumes "Compile ast offsets = Returns (ph, c)"
  shows "labelBlockNames c = filter (\<lambda>l. labeledData c l = None) (labelNames ast)
    \<and> (\<forall>l \<in> set (labelNames ast). (labeledData c l \<noteq> None) \<noteq> (l \<in> set (labelBlockNames c)))
    \<and> (\<forall>l. \<not> (labeledData c l \<noteq> None \<and> l \<in> set (labelBlockNames c)))
    \<and> (\<forall>l g. labeledData c l = Some g \<longrightarrow>
          g < length (modGlobals c) \<and> globalName (modGlobals c ! g) = l \<and>
          l \<in> set (labelNames ast))
    \<and> basicBlocks c = Map.empty
    \<and> (labeledData c0 l0 = Some g0 \<longrightarrow> visitForCompile (LabeledStatement l0) c0 = c0)"
proof -
  note d = Compile_ReturnsD [OF assms]
  note bb = basicBlocks_Compile [OF assms]
  have ld: "labeledData c = labeledData (afterDataPass ast)"
    and mg: "modGlobals c = modGlobals (afterDataPass ast)"
    by (simp_all add: d(2) hookUpEntryPoints_keeps loweredState_facts)
  have names: "labelBlockNames c = filter (\<lambda>l. labeledData c l = None) (labelNames ast)"
    by (simp add: labelBlockNames_eq d(2) hookUpEntryPoints_keeps loweredState_facts)
  have own: "g < length (modGlobals c) \<and> globalName (modGlobals c ! g) = l \<and>
      l \<in> set (labelNames ast)" if "labeledData c l = Some g" for l g
    using dataInvD(1) [OF dataInv_afterDataPass, of ast l g] that by (simp add: ld mg)
  have skip: "labeledData c0 l0 = Some g0 \<longrightarrow> visitForCompile (LabeledStatement l0) c0 = c0"
    by (simp add: visitForCompile_def LSC_skip)
  have x: "\<forall>l \<in> set (labelNames ast). (labeledData c l \<noteq> None) \<noteq> (l \<in> set (labelBlockNames c))"
    unfolding names by auto
  have nb: "\<forall>l. \<not> (labeledData c l \<noteq> None \<and> l \<in> set (labelBlockNames c))"
    unfolding names by auto
  show ?thesis using names x nb own bb skip by blast
qed

lemma sample_Compile:
  "Compile sampleAst sampleOffsets =
     Returns (ReachedVerifyModule,
       (loweredState sampleAst sampleOffsets)
         \<lparr>builder := Some 0,
          mainBlocks := sampleBlocks
            [0 := entryBlock\<lparr>blockInstrs := blockInstrs entryBlock @ [Br 2]\<rparr>]\<rparr>)"
  by (simp add: Compile_eq sample_vectorLookupsReturn)
    (simp add: sample_loweredState hookUpEntryPoints_def CreateBr_def SetInsertPointAtEnd_def
      insertInstr_def appendInstr_def sampleBlocks_def)

lemma sample_labelNames:
  "labelNames sampleAst = [''msg'', ''nmi'', ''reset'', ''loop'', ''irq'']"
  by (simp add: labelNames_def sampleAst_def)

theorem label_owns_data_or_block_witness:
  "(\<exists>c. Compile sampleAst sampleOffsets = Returns (ReachedVerifyModule, c) \<and>
        labelBlockNames c = [''nmi'', ''reset'', ''loop'', ''irq''] \<and>
        labeledData c ''msg'' = Some 0 \<and> globalName (modGlobals c ! 0) = ''msg'' \<and>
        ''msg'' \<notin> set (labelBlockNames c) \<and> labeledData c ''reset'' = None \<and>
        basicBlocks c ''msg'' = None \<and> basicBlocks c ''reset'' = None)
   \<and> labeledData (codegenStart sampleAst sampleOffsets) ''msg'' = Some 0
   \<and> visitForCompile (LabeledStatement ''msg'') (codegenStart sampleAst sampleOffsets) =
       codegenStart sampleAst sampleOffsets"
proof -
  define c where "c = (loweredState sampleAst sampleOffsets)
         \<lparr>builder := Some 0,
          mainBlocks := sampleBlocks
            [0 := entryBlock\<lparr>blockInstrs := blockInstrs entryBlock @ [Br 2]\<rparr>]\<rparr>"
  have C: "Compile sampleAst sampleOffsets = Returns (ReachedVerifyModule, c)"
    unfolding c_def by (rule sample_Compile)
  have ld: "labeledData c = [''msg'' \<mapsto> 0]"
    unfolding c_def by (simp add: sample_loweredState sample_codegenStart)
  have m: "labeledData (codegenStart sampleAst sampleOffsets) ''msg'' = Some 0"
    by (simp add: sample_codegenStart)
  note t = label_owns_data_or_block [OF C, of "codegenStart sampleAst sampleOffsets" "''msg''" 0]
  from t have names: "labelBlockNames c = filter (\<lambda>l. labeledData c l = None) (labelNames sampleAst)"
    by blast
  from t have own: "\<forall>l g. labeledData c l = Some g \<longrightarrow>
          g < length (modGlobals c) \<and> globalName (modGlobals c ! g) = l \<and>
          l \<in> set (labelNames sampleAst)"
    by blast
  from t m have skip: "visitForCompile (LabeledStatement ''msg'')
      (codegenStart sampleAst sampleOffsets) = codegenStart sampleAst sampleOffsets"
    by blast
  have n: "labelBlockNames c = [''nmi'', ''reset'', ''loop'', ''irq'']"
    unfolding names by (simp add: ld sample_labelNames)
  have msg: "labeledData c ''msg'' = Some 0" by (simp add: ld)
  from own msg have g: "globalName (modGlobals c ! 0) = ''msg''" by blast
  from t have bb: "basicBlocks c = Map.empty" by blast
  have "labelBlockNames c = [''nmi'', ''reset'', ''loop'', ''irq''] \<and>
        labeledData c ''msg'' = Some 0 \<and> globalName (modGlobals c ! 0) = ''msg'' \<and>
        ''msg'' \<notin> set (labelBlockNames c) \<and> labeledData c ''reset'' = None \<and>
        basicBlocks c ''msg'' = None \<and> basicBlocks c ''reset'' = None"
    using n msg g by (simp add: ld bb)
  with C m skip show ?thesis by blast
qed

theorem entry_points_hooked_up_witness:
  "lowered sampleAst sampleOffsets = Returns (0, loweredState sampleAst sampleOffsets)
   \<and> nmiBlock (loweredState sampleAst sampleOffsets) = Some 1
   \<and> resetBlock (loweredState sampleAst sampleOffsets) = Some 2
   \<and> irqBlock (loweredState sampleAst sampleOffsets) = Some 4
   \<and> blockName (mainBlocks (loweredState sampleAst sampleOffsets) ! 2) = ''reset''
   \<and> Compile sampleAst sampleOffsets =
       Returns (ReachedVerifyModule,
         (loweredState sampleAst sampleOffsets)
           \<lparr>builder := Some 0,
            mainBlocks := (mainBlocks (loweredState sampleAst sampleOffsets))
              [0 := entryBlock\<lparr>blockInstrs := blockInstrs entryBlock @ [Br 2]\<rparr>]\<rparr>)
   \<and> lowered sampleAst byteResetOffsets = Returns (0, loweredState sampleAst byteResetOffsets)
   \<and> nmiBlock (loweredState sampleAst byteResetOffsets) = Some 1
   \<and> resetBlock (loweredState sampleAst byteResetOffsets) = None
   \<and> Compile sampleAst byteResetOffsets =
       Returns (ReturnedEarly,
         (loweredState sampleAst byteResetOffsets)
           \<lparr>cErrors := [EntryPointMustBeDcw, LacksCompile ''ImmediateInstruction'',
                        MissingResetEntryPoint]\<rparr>)"
proof -
  define L where "L = loweredState sampleAst sampleOffsets"
  define L' where "L' = loweredState sampleAst byteResetOffsets"
  have l1: "lowered sampleAst sampleOffsets = Returns (0, L)"
    and l2: "lowered sampleAst byteResetOffsets = Returns (0, L')"
    by (simp_all add: lowered_eq sample_vectorLookupsReturn L_def L'_def)
  have f1: "nmiBlock L = Some 1" "resetBlock L = Some 2" "irqBlock L = Some 4"
    "resetLabelName L = ''reset''"
    unfolding L_def
    by (simp_all add: sample_loweredState codegenStart_def lookupName_def sample_vectorLookups)
  have f2: "nmiBlock L' = Some 1" "resetBlock L' = None"
    "cErrors L' = [EntryPointMustBeDcw, LacksCompile ''ImmediateInstruction'']"
    unfolding L'_def by (simp_all add: sample_loweredState_byteReset codegenStart_fields)
  from entry_points_hooked_up [OF l1]
  have "\<forall>n r i. nmiBlock L = Some n \<and> resetBlock L = Some r \<and> irqBlock L = Some i \<longrightarrow>
          r \<noteq> n \<and> r \<noteq> i \<and> r \<noteq> 0 \<and> r < length (mainBlocks L) \<and>
          blockName (mainBlocks L ! r) = resetLabelName L \<and>
          mainBlocks L ! 0 = entryBlock \<and>
          Compile sampleAst sampleOffsets =
            Returns (ReachedVerifyModule,
              L\<lparr>builder := Some 0,
                mainBlocks := (mainBlocks L)
                  [0 := entryBlock\<lparr>blockInstrs := blockInstrs entryBlock @ [Br r]\<rparr>]\<rparr>)"
    by (rule conjunct2)
  with f1(1,2,3) have a: "blockName (mainBlocks L ! 2) = resetLabelName L \<and>
          Compile sampleAst sampleOffsets =
            Returns (ReachedVerifyModule,
              L\<lparr>builder := Some 0,
                mainBlocks := (mainBlocks L)
                  [0 := entryBlock\<lparr>blockInstrs := blockInstrs entryBlock @ [Br 2]\<rparr>]\<rparr>)"
    by blast
  from entry_points_hooked_up [OF l2]
  have "nmiBlock L' = None \<or> resetBlock L' = None \<or> irqBlock L' = None \<longrightarrow>
      Compile sampleAst byteResetOffsets =
        Returns (ReturnedEarly,
          L'\<lparr>cErrors := cErrors L' @
               [if nmiBlock L' = None then MissingNmiEntryPoint
                else if resetBlock L' = None then MissingResetEntryPoint
                else MissingIrqEntryPoint]\<rparr>)"
    by (rule conjunct1)
  with f2(2) have "Compile sampleAst byteResetOffsets =
        Returns (ReturnedEarly,
          L'\<lparr>cErrors := cErrors L' @
               [if nmiBlock L' = None then MissingNmiEntryPoint
                else if resetBlock L' = None then MissingResetEntryPoint
                else MissingIrqEntryPoint]\<rparr>)"
    by blast
  then have b: "Compile sampleAst byteResetOffsets =
       Returns (ReturnedEarly,
         L'\<lparr>cErrors := [EntryPointMustBeDcw, LacksCompile ''ImmediateInstruction'',
                        MissingResetEntryPoint]\<rparr>)"
    by (simp add: f2)
  show ?thesis
    using l1 l2 f1 f2 a b unfolding L_def [symmetric] L'_def [symmetric] by simp
qed

lemma visitForCompile_errors: "\<exists>es. cErrors (visitForCompile n c) = cErrors c @ es"
proof -
  from visitForCompile_cases [of n c] show ?thesis
  proof
    assume "\<exists>l. n = LabeledStatement l \<and> visitForCompile n c = LabeledStatement_Compile l c"
    then obtain l where "visitForCompile n c = LabeledStatement_Compile l c" by blast
    then have "cErrors (visitForCompile n c) = cErrors c @ []" by (simp add: LSC_unchanged)
    then show ?thesis by blast
  next
    assume "(\<forall>l. n \<noteq> LabeledStatement l) \<and>
      (\<exists>es. visitForCompile n c = c\<lparr>cErrors := cErrors c @ es\<rparr>)"
    then obtain es where "visitForCompile n c = c\<lparr>cErrors := cErrors c @ es\<rparr>" by blast
    then have "cErrors (visitForCompile n c) = cErrors c @ es" by simp
    then show ?thesis by blast
  qed
qed

lemma fold_visitForCompile_errors:
  "\<exists>es. cErrors (fold visitForCompile ns c) = cErrors c @ es"
proof (induction ns arbitrary: c)
  case Nil
  have "cErrors (fold visitForCompile [] c) = cErrors c @ []" by simp
  then show ?case by blast
next
  case (Cons n ns)
  obtain es1 where e1: "cErrors (visitForCompile n c) = cErrors c @ es1"
    using visitForCompile_errors by blast
  obtain es2 where "cErrors (fold visitForCompile ns (visitForCompile n c)) =
      cErrors (visitForCompile n c) @ es2"
    using Cons.IH by blast
  with e1 have "cErrors (fold visitForCompile (n # ns) c) = cErrors c @ (es1 @ es2)" by simp
  then show ?case by blast
qed

lemma loweredState_errors:
  "\<exists>es. cErrors (loweredState ast offsets) = cErrors (codegenStart ast offsets) @ es"
  using fold_visitForCompile_errors [of ast "(codegenStart ast offsets)\<lparr>mode := compileMode\<rparr>"]
  by (simp add: loweredState_def pass2_def closeFinalBlock_keeps)

lemma nth_in_tl: "1 \<le> n \<Longrightarrow> n < length xs \<Longrightarrow> xs ! n \<in> set (tl xs)"
  by (cases xs; cases n) simp_all

lemma block_name_is_label:
  assumes "1 \<le> n" and "n < length (mainBlocks (loweredState ast offsets))"
  shows "blockName (mainBlocks (loweredState ast offsets) ! n) \<in> set (labelNames ast)"
proof -
  let ?names = "map blockName (mainBlocks (loweredState ast offsets))"
  have "?names ! n \<in> set (tl ?names)"
    using assms by (intro nth_in_tl) simp_all
  then have "?names ! n \<in> set (labelNames ast)"
    by (simp only: loweredState_facts(5) list.sel set_filter) simp
  with assms(2) show ?thesis by simp
qed

lemma unset_vector_block:
  assumes "[] \<notin> set (labelNames ast)"
  shows "nmiLabelName (loweredState ast offsets) = [] \<Longrightarrow>
           nmiBlock (loweredState ast offsets) = None"
    and "resetLabelName (loweredState ast offsets) = [] \<Longrightarrow>
           resetBlock (loweredState ast offsets) = None"
    and "irqLabelName (loweredState ast offsets) = [] \<Longrightarrow>
           irqBlock (loweredState ast offsets) = None"
proof -
  let ?L = "loweredState ast offsets"
  have vn: "\<And>n. nmiBlock ?L = Some n \<Longrightarrow>
      1 \<le> n \<and> n < length (mainBlocks ?L) \<and> blockName (mainBlocks ?L ! n) = nmiLabelName ?L"
   and vr: "\<And>r. resetBlock ?L = Some r \<Longrightarrow>
      1 \<le> r \<and> r < length (mainBlocks ?L) \<and> blockName (mainBlocks ?L ! r) = resetLabelName ?L"
   and vi: "\<And>i. irqBlock ?L = Some i \<Longrightarrow>
      1 \<le> i \<and> i < length (mainBlocks ?L) \<and> blockName (mainBlocks ?L ! i) = irqLabelName ?L"
    using loweredState_facts(1) [of ast offsets] unfolding vectorsInv_def by blast+
  show "nmiBlock ?L = None" if e: "nmiLabelName ?L = []"
  proof (cases "nmiBlock ?L")
    case (Some n)
    from vn [OF Some] block_name_is_label [of n ast offsets] e assms show ?thesis by auto
  qed simp
  show "resetBlock ?L = None" if e: "resetLabelName ?L = []"
  proof (cases "resetBlock ?L")
    case (Some n)
    from vr [OF Some] block_name_is_label [of n ast offsets] e assms show ?thesis by auto
  qed simp
  show "irqBlock ?L = None" if e: "irqLabelName ?L = []"
  proof (cases "irqBlock ?L")
    case (Some n)
    from vi [OF Some] block_name_is_label [of n ast offsets] e assms show ?thesis by auto
  qed simp
qed

lemma hookUp_early:
  assumes "nmiBlock c = None \<or> resetBlock c = None \<or> irqBlock c = None"
  shows "\<exists>m. m \<in> {MissingNmiEntryPoint, MissingResetEntryPoint, MissingIrqEntryPoint} \<and>
    hookUpEntryPoints e c = (ReturnedEarly, c\<lparr>cErrors := cErrors c @ [m]\<rparr>)"
  using assms by (auto simp: hookUpEntryPoints_def)

text \<open>
  C3, amended. When the lookup of one of the three vector offsets fails (the offset is
  missing, or its statement is no double-byte data declaration, or the first item of
  that declaration is no label reference), its error is recorded before the second
  pass, but the second pass still runs: the lowered module has the blocks of all the
  labels that own no data. In a program without an empty label name the vector's block
  then stays unset, so \<^verbatim>\<open>Compile\<close> appends a missing-entry-point error and returns
  without reaching the verification of the module.
\<close>

theorem lookup_failure_reported_after_codegen:
  assumes "vectorLookup offsets addr = LookupFails e" and "addr \<in> set vectorAddrs"
    and "lookupsReturn offsets" and "[] \<notin> set (labelNames ast)"
  shows "\<exists>c3 c5 m. beforeCodegen ast offsets = Returns (0, c3) \<and> e \<in> set (cErrors c3) \<and>
      labelBlockNames c3 = [] \<and>
      lowered ast offsets = Returns (0, c5) \<and>
      labelBlockNames c5 = filter (\<lambda>l. labeledData c3 l = None) (labelNames ast) \<and>
      e \<in> set (cErrors c5) \<and>
      m \<in> {MissingNmiEntryPoint, MissingResetEntryPoint, MissingIrqEntryPoint} \<and>
      Compile ast offsets = Returns (ReturnedEarly, c5\<lparr>cErrors := cErrors c5 @ [m]\<rparr>)"
proof -
  let ?c3 = "codegenStart ast offsets"
  let ?c5 = "loweredState ast offsets"
  have b: "beforeCodegen ast offsets = Returns (0, ?c3)"
    using assms(3) by (simp add: beforeCodegen_eq)
  have l: "lowered ast offsets = Returns (0, ?c5)"
    using assms(3) by (simp add: lowered_eq)
  have C: "Compile ast offsets = Returns (hookUpEntryPoints 0 ?c5)"
    using assms(3) by (simp add: Compile_eq)
  have e3: "e \<in> set (cErrors ?c3)"
    using assms(1,2) by (auto simp: codegenStart_def vectorAddrs_def lookupErrors_def)
  obtain es where "cErrors ?c5 = cErrors ?c3 @ es" using loweredState_errors by blast
  with e3 have e5: "e \<in> set (cErrors ?c5)" by simp
  have n3: "labelBlockNames ?c3 = []"
    by (simp add: labelBlockNames_def codegenStart_fields)
  have n5: "labelBlockNames ?c5 = filter (\<lambda>l. labeledData ?c3 l = None) (labelNames ast)"
    by (simp add: labelBlockNames_eq loweredState_facts codegenStart_fields)
  have empty: "nmiLabelName ?c5 = [] \<or> resetLabelName ?c5 = [] \<or> irqLabelName ?c5 = []"
    using assms(1,2) by (auto simp: loweredState_facts vectorAddrs_def lookupName_def)
  then have "nmiBlock ?c5 = None \<or> resetBlock ?c5 = None \<or> irqBlock ?c5 = None"
    using unset_vector_block [OF assms(4), of offsets] by auto
  from hookUp_early [OF this, of 0] obtain m
    where m: "m \<in> {MissingNmiEntryPoint, MissingResetEntryPoint, MissingIrqEntryPoint}"
      "hookUpEntryPoints 0 ?c5 = (ReturnedEarly, ?c5\<lparr>cErrors := cErrors ?c5 @ [m]\<rparr>)"
    by blast
  from b e3 n3 l n5 e5 m C show ?thesis by (intro exI [of _ ?c3] exI [of _ ?c5] exI [of _ m]) simp
qed

lemma sample_Compile_byteReset:
  "Compile sampleAst byteResetOffsets =
     Returns (ReturnedEarly,
       (loweredState sampleAst byteResetOffsets)
         \<lparr>cErrors := [EntryPointMustBeDcw, LacksCompile ''ImmediateInstruction'',
                      MissingResetEntryPoint]\<rparr>)"
  by (simp add: Compile_eq sample_vectorLookupsReturn)
    (simp add: sample_loweredState_byteReset hookUpEntryPoints_def codegenStart_fields)

theorem lookup_failure_reported_after_codegen_witness:
  "vectorLookup byteResetOffsets 0xfffc = LookupFails EntryPointMustBeDcw
   \<and> 0xfffc \<in> set vectorAddrs \<and> lookupsReturn byteResetOffsets
   \<and> [] \<notin> set (labelNames sampleAst)
   \<and> (\<exists>c3 c5. beforeCodegen sampleAst byteResetOffsets = Returns (0, c3) \<and>
         EntryPointMustBeDcw \<in> set (cErrors c3) \<and> labelBlockNames c3 = [] \<and>
         lowered sampleAst byteResetOffsets = Returns (0, c5) \<and>
         labelBlockNames c5 = [''nmi'', ''reset'', ''loop'', ''irq''] \<and>
         EntryPointMustBeDcw \<in> set (cErrors c5) \<and>
         Compile sampleAst byteResetOffsets =
           Returns (ReturnedEarly, c5\<lparr>cErrors := cErrors c5 @ [MissingResetEntryPoint]\<rparr>))"
proof -
  have h1: "vectorLookup byteResetOffsets 0xfffc = LookupFails EntryPointMustBeDcw"
    by (rule sample_vectorLookups(5))
  have h2: "0xfffc \<in> set vectorAddrs" by (simp add: vectorAddrs_def)
  have h3: "lookupsReturn byteResetOffsets" by (rule sample_vectorLookupsReturn(2))
  have h4: "[] \<notin> set (labelNames sampleAst)" by (simp add: sample_labelNames)
  from lookup_failure_reported_after_codegen [OF h1 h2 h3 h4]
  obtain c3 c5 m where r: "beforeCodegen sampleAst byteResetOffsets = Returns (0, c3)"
      "EntryPointMustBeDcw \<in> set (cErrors c3)" "labelBlockNames c3 = []"
      "lowered sampleAst byteResetOffsets = Returns (0, c5)"
      "labelBlockNames c5 = filter (\<lambda>l. labeledData c3 l = None) (labelNames sampleAst)"
      "EntryPointMustBeDcw \<in> set (cErrors c5)"
      "Compile sampleAst byteResetOffsets = Returns (ReturnedEarly, c5\<lparr>cErrors := cErrors c5 @ [m]\<rparr>)"
    by blast
  from r(1) have c3: "c3 = codegenStart sampleAst byteResetOffsets"
    by (simp add: beforeCodegen_eq h3)
  from r(4) have c5: "c5 = loweredState sampleAst byteResetOffsets"
    by (simp add: lowered_eq h3)
  have names: "labelBlockNames c5 = [''nmi'', ''reset'', ''loop'', ''irq'']"
    unfolding r(5) c3 by (simp add: sample_codegenStart sample_labelNames)
  have ce: "cErrors c5 = [EntryPointMustBeDcw, LacksCompile ''ImmediateInstruction'']"
    unfolding c5 by (simp add: sample_loweredState_byteReset)
  from r(7) sample_Compile_byteReset
  have "c5\<lparr>cErrors := cErrors c5 @ [m]\<rparr> =
      (loweredState sampleAst byteResetOffsets)
         \<lparr>cErrors := [EntryPointMustBeDcw, LacksCompile ''ImmediateInstruction'',
                      MissingResetEntryPoint]\<rparr>"
    by simp
  then have "cErrors (c5\<lparr>cErrors := cErrors c5 @ [m]\<rparr>) =
      cErrors ((loweredState sampleAst byteResetOffsets)
         \<lparr>cErrors := [EntryPointMustBeDcw, LacksCompile ''ImmediateInstruction'',
                      MissingResetEntryPoint]\<rparr>)"
    by (rule arg_cong)
  then have "m = MissingResetEntryPoint" by (simp add: ce)
  with r(7) have C: "Compile sampleAst byteResetOffsets =
      Returns (ReturnedEarly, c5\<lparr>cErrors := cErrors c5 @ [MissingResetEntryPoint]\<rparr>)"
    by simp
  from r(1,2,3,4,6) names C h1 h2 h3 h4 show ?thesis by blast
qed

text \<open>
  C3 as stated fails: with a single-byte data declaration at the reset offset, the
  state returned by \<^verbatim>\<open>Compile\<close> is not the state in which the second pass starts.
  It has the blocks that the second pass opened and the error of the instruction that
  the second pass visited.
\<close>

theorem lookup_failure_does_not_stop_codegen:
  "vectorLookup byteResetOffsets 0xfffc = LookupFails EntryPointMustBeDcw
   \<and> byteResetOffsets 0xfffc = Some (DataStatement [IntegerDataItem 0] 0xfffc)
   \<and> beforeCodegen sampleAst byteResetOffsets =
       Returns (0, codegenStart sampleAst byteResetOffsets)
   \<and> cErrors (codegenStart sampleAst byteResetOffsets) = [EntryPointMustBeDcw]
   \<and> mainBlocks (codegenStart sampleAst byteResetOffsets) = [entryBlock]
   \<and> Compile sampleAst byteResetOffsets =
       Returns (ReturnedEarly,
         (loweredState sampleAst byteResetOffsets)
           \<lparr>cErrors := [EntryPointMustBeDcw, LacksCompile ''ImmediateInstruction'',
                        MissingResetEntryPoint]\<rparr>)
   \<and> mainBlocks (loweredState sampleAst byteResetOffsets) = sampleBlocks
   \<and> labelBlockNames (loweredState sampleAst byteResetOffsets) =
       [''nmi'', ''reset'', ''loop'', ''irq'']
   \<and> Compile sampleAst byteResetOffsets \<noteq>
       Returns (ReturnedEarly, codegenStart sampleAst byteResetOffsets)"
proof -
  have a: "byteResetOffsets 0xfffc = Some (DataStatement [IntegerDataItem 0] 0xfffc)"
    by (simp add: byteResetOffsets_def)
  have b: "beforeCodegen sampleAst byteResetOffsets =
       Returns (0, codegenStart sampleAst byteResetOffsets)"
    by (simp add: beforeCodegen_eq sample_vectorLookupsReturn)
  have e: "cErrors (codegenStart sampleAst byteResetOffsets) = [EntryPointMustBeDcw]"
    by (simp add: codegenStart_def sample_vectorLookups lookupErrors_def)
  have m: "mainBlocks (loweredState sampleAst byteResetOffsets) = sampleBlocks"
    by (simp add: sample_loweredState_byteReset)
  have n: "labelBlockNames (loweredState sampleAst byteResetOffsets) =
       [''nmi'', ''reset'', ''loop'', ''irq'']"
    by (simp add: labelBlockNames_def m sampleBlocks_def)
  have "cErrors ((loweredState sampleAst byteResetOffsets)
           \<lparr>cErrors := [EntryPointMustBeDcw, LacksCompile ''ImmediateInstruction'',
                        MissingResetEntryPoint]\<rparr>) \<noteq>
        cErrors (codegenStart sampleAst byteResetOffsets)"
    by (simp add: e)
  then have d: "(loweredState sampleAst byteResetOffsets)
           \<lparr>cErrors := [EntryPointMustBeDcw, LacksCompile ''ImmediateInstruction'',
                        MissingResetEntryPoint]\<rparr> \<noteq> codegenStart sampleAst byteResetOffsets"
    by metis
  show ?thesis
    using a b e m n d sample_vectorLookups(5) codegenStart_fields(1) [of sampleAst byteResetOffsets]
    by (simp add: sample_Compile_byteReset)
qed

text \<open>
  C7 as stated fails: the label \<open>reset\<close> of the sample program ends in neither map.
  It is absent from the label-to-global map and from the label-to-block map, while
  \<^verbatim>\<open>main\<close> has the block \<open>reset\<close> and the reset vector points to it.
\<close>

theorem label_block_map_never_written:
  "Compile sampleAst sampleOffsets =
     Returns (ReachedVerifyModule,
       (loweredState sampleAst sampleOffsets)
         \<lparr>builder := Some 0,
          mainBlocks := sampleBlocks
            [0 := entryBlock\<lparr>blockInstrs := blockInstrs entryBlock @ [Br 2]\<rparr>]\<rparr>)
   \<and> ''reset'' \<in> set (labelNames sampleAst)
   \<and> labeledData ((loweredState sampleAst sampleOffsets)
         \<lparr>builder := Some 0,
          mainBlocks := sampleBlocks
            [0 := entryBlock\<lparr>blockInstrs := blockInstrs entryBlock @ [Br 2]\<rparr>]\<rparr>) ''reset'' = None
   \<and> basicBlocks ((loweredState sampleAst sampleOffsets)
         \<lparr>builder := Some 0,
          mainBlocks := sampleBlocks
            [0 := entryBlock\<lparr>blockInstrs := blockInstrs entryBlock @ [Br 2]\<rparr>]\<rparr>) ''reset'' = None
   \<and> resetBlock ((loweredState sampleAst sampleOffsets)
         \<lparr>builder := Some 0,
          mainBlocks := sampleBlocks
            [0 := entryBlock\<lparr>blockInstrs := blockInstrs entryBlock @ [Br 2]\<rparr>]\<rparr>) = Some 2
   \<and> ''reset'' \<in> set (labelBlockNames ((loweredState sampleAst sampleOffsets)
         \<lparr>builder := Some 0,
          mainBlocks := sampleBlocks
            [0 := entryBlock\<lparr>blockInstrs := blockInstrs entryBlock @ [Br 2]\<rparr>]\<rparr>))"
proof -
  have ld: "labeledData (loweredState sampleAst sampleOffsets) = [''msg'' \<mapsto> 0]"
    by (simp add: sample_loweredState sample_codegenStart)
  have rb: "resetBlock (loweredState sampleAst sampleOffsets) = Some 2"
    by (simp add: sample_loweredState)
  show ?thesis
    using sample_Compile ld rb
    by (simp add: basicBlocks_loweredState sample_labelNames labelBlockNames_def sampleBlocks_def)
qed

end
